theory Spec2Isabelle
  imports Complex_Main "HOL-Library.AList"
begin

section \<open>Values read from the tabular files\<close>

text \<open>
  The loader reads three CSV files with pandas. A cell of a data frame is a string, a
  number, or the missing-value marker (pandas reads an empty cell as NaN). Finite Python
  floats are idealised as reals: the rounding error of binary64 arithmetic is not
  modelled, only the NaN value, which pandas uses for "missing" and which every
  arithmetic operation propagates.

  Python dicts are association lists in insertion order, updated in place
  (\<open>AList.update\<close>): a key keeps its position, a new key goes last. Keys are compared
  with HOL equality; a missing user identifier or category, whose NaN Python would
  compare by identity, is outside what the model describes.
\<close>

datatype cell = Missing | Text string | Number real

datatype pyfloat = NaN | Fl real

datatype error = FileNotFoundError | ValueError | TypeError | KeyError | ZeroDivisionError

text \<open>Python's \<open>==\<close> on two cells: NaN equals nothing, itself included.\<close>

fun py_eq :: "cell \<Rightarrow> cell \<Rightarrow> bool" where
  "py_eq (Text a) (Text b) = (a = b)"
| "py_eq (Number a) (Number b) = (a = b)"
| "py_eq _ _ = False"

text \<open>\<open>float(x)\<close>: NaN stays NaN, a number is itself, a text that is no number raises.\<close>

fun py_float :: "cell \<Rightarrow> error + pyfloat" where
  "py_float Missing = Inr NaN"
| "py_float (Number r) = Inr (Fl r)"
| "py_float (Text s) = Inl ValueError"

text \<open>\<open>int(x)\<close>: truncation towards zero; NaN and text raise.\<close>

fun py_int :: "cell \<Rightarrow> error + int" where
  "py_int Missing = Inl ValueError"
| "py_int (Number r) = Inr (if 0 \<le> r then \<lfloor>r\<rfloor> else \<lceil>r\<rceil>)"
| "py_int (Text s) = Inl ValueError"

text \<open>
  A data frame after the column renaming: its header and its rows. A row is read by
  column name; the loader only reads columns it has found in the header.
\<close>

record table =
  columns :: "string list"
  rows :: "(string \<Rightarrow> cell) list"

record data_dir =
  questions_csv :: "table option"
  results_csv :: "table option"
  self_assessment_csv :: "table option"

section \<open>The normalized model\<close>

record question =
  q_text :: cell
  q_category :: cell
  correct_answer :: cell
  q_worth :: int

record response =
  r_timestamp :: cell
  answer :: cell
  is_correct :: bool
  points_earned :: int
  worth :: int

record self_assessment_rec =
  sa_timestamp :: cell
  scores :: "(cell \<times> pyfloat) list"

text \<open>A user as the three loading passes hold it: a dict of responses by question
  number (\<open>Q1\<close> is 1) and an optional self-assessment, \<open>None\<close> until a row attaches one.\<close>

record user =
  responses :: "(nat \<times> response) list"
  self_assessment :: "self_assessment_rec option"

text \<open>A loop whose body may raise: the first exception ends it.\<close>

fun for_each :: "('a \<Rightarrow> 's \<Rightarrow> error + 's) \<Rightarrow> 'a list \<Rightarrow> 's \<Rightarrow> error + 's" where
  "for_each body [] s = Inr s"
| "for_each body (x # xs) s =
     (case body x s of Inl e \<Rightarrow> Inl e | Inr s' \<Rightarrow> for_each body xs s')"

section \<open>DataLoader\<close>

subsection \<open>\<open>_load_questions\<close>\<close>

definition question_row :: "(string \<Rightarrow> cell) \<Rightarrow> (nat \<times> question) list
    \<Rightarrow> error + (nat \<times> question) list" where
  "question_row row questions =
     (case py_int (row ''value'') of
        Inl e \<Rightarrow> Inl e
      | Inr w \<Rightarrow> Inr (AList.update (Suc (length questions))
                  \<lparr>q_text = row ''question'', q_category = row ''category'',
                   correct_answer = row ''answer'', q_worth = w\<rparr> questions))"

text \<open>The loader keeps the categories as a Python set; the model lists them in order of
  first appearance, as \<open>unique()\<close> returns them.\<close>

definition load_questions :: "table option
    \<Rightarrow> error + (nat \<times> question) list \<times> cell list" where
  "load_questions file =
     (case file of
        None \<Rightarrow> Inl FileNotFoundError
      | Some df \<Rightarrow>
          if ''category'' \<notin> set (columns df) then Inl KeyError
          else if rows df \<noteq> [] \<and> \<not> set [''question'', ''category'', ''answer'', ''value'']
                      \<subseteq> set (columns df) then Inl KeyError
          else (case for_each question_row (rows df) [] of
                  Inl e \<Rightarrow> Inl e
                | Inr questions \<Rightarrow>
                    Inr (questions, remdups (map (\<lambda>row. row ''category'') (rows df)))))"

subsection \<open>\<open>_load_responses\<close>\<close>

text \<open>The body of the loop over the questions, for one row of the results file.\<close>

definition derive_response :: "cell \<Rightarrow> cell \<Rightarrow> question \<Rightarrow> response" where
  "derive_response timestamp ans question =
     (let correct = py_eq ans (correct_answer question);
          points = (if correct then q_worth question else 0)
      in \<lparr>r_timestamp = timestamp, answer = ans, is_correct = correct,
          points_earned = points, worth = q_worth question\<rparr>)"

definition question_step :: "string list \<Rightarrow> (string \<Rightarrow> cell) \<Rightarrow> nat \<times> question
    \<Rightarrow> (nat \<times> response) list \<Rightarrow> (nat \<times> response) list" where
  "question_step cols row item resp =
     (case q_text (snd item) of
        Text name \<Rightarrow>
          if name \<in> set cols
          then AList.update (fst item)
                 (derive_response (row ''date_time'') (row name) (snd item)) resp
          else resp
      | _ \<Rightarrow> resp)"

definition response_row :: "(nat \<times> question) list \<Rightarrow> string list \<Rightarrow> (string \<Rightarrow> cell)
    \<Rightarrow> (cell \<times> user) list \<Rightarrow> (cell \<times> user) list" where
  "response_row questions cols row users =
     (let user_id = row ''user_id'';
          users1 = (if user_id \<in> set (map fst users) then users
                    else AList.update user_id \<lparr>responses = [], self_assessment = None\<rparr> users)
      in AList.map_entry user_id
           (\<lambda>u. u\<lparr>responses := fold (question_step cols row) questions (responses u)\<rparr>)
           users1)"

definition load_responses :: "(nat \<times> question) list \<Rightarrow> table option
    \<Rightarrow> (cell \<times> user) list \<Rightarrow> error + (cell \<times> user) list" where
  "load_responses questions file users =
     (case file of
        None \<Rightarrow> Inl FileNotFoundError
      | Some df \<Rightarrow>
          if [col \<leftarrow> [''date_time'', ''user_id'']. col \<notin> set (columns df)] \<noteq> []
          then Inl ValueError
          else Inr (fold (response_row questions (columns df)) (rows df) users))"

subsection \<open>\<open>_load_self_assessment\<close>\<close>

definition score_step :: "string list \<Rightarrow> (string \<Rightarrow> cell) \<Rightarrow> cell
    \<Rightarrow> (cell \<times> pyfloat) list \<Rightarrow> error + (cell \<times> pyfloat) list" where
  "score_step cols row category sc =
     (case category of
        Text name \<Rightarrow>
          if name \<in> set cols
          then (case py_float (row name) of
                  Inl e \<Rightarrow> Inl e
                | Inr v \<Rightarrow> Inr (AList.update category v sc))
          else Inr sc
      | _ \<Rightarrow> Inr sc)"

definition assessment_row :: "cell list \<Rightarrow> string list \<Rightarrow> (string \<Rightarrow> cell)
    \<Rightarrow> (cell \<times> user) list \<Rightarrow> error + (cell \<times> user) list" where
  "assessment_row quiz_categories cols row users =
     (let user_id = row ''user_id''; timestamp = row ''date_time''
      in if user_id \<in> set (map fst users)
         then (case for_each (score_step cols row) quiz_categories [] of
                 Inl e \<Rightarrow> Inl e
               | Inr sc \<Rightarrow>
                   Inr (AList.map_entry user_id
                          (\<lambda>u. u\<lparr>self_assessment :=
                                   Some \<lparr>sa_timestamp = timestamp, scores = sc\<rparr>\<rparr>)
                          users))
         else Inr users)"

text \<open>The result carries the lines printed: the warning of the \<open>except\<close> branch.\<close>

definition load_self_assessment :: "cell list \<Rightarrow> table option \<Rightarrow> (cell \<times> user) list
    \<Rightarrow> error + (cell \<times> user) list \<times> string list" where
  "load_self_assessment quiz_categories file users =
     (case file of
        None \<Rightarrow> Inr (users, [''Warning: self_assessment.csv not found''])
      | Some df \<Rightarrow>
          if [col \<leftarrow> [''date_time'', ''user_id'']. col \<notin> set (columns df)] \<noteq> []
          then Inl ValueError
          else (case for_each (assessment_row quiz_categories (columns df)) (rows df) users of
                  Inl e \<Rightarrow> Inl e
                | Inr users' \<Rightarrow> Inr (users', [])))"

subsection \<open>Python arithmetic on floats\<close>

fun lift1 :: "(real \<Rightarrow> real) \<Rightarrow> pyfloat \<Rightarrow> pyfloat" where
  "lift1 f (Fl a) = Fl (f a)"
| "lift1 f NaN = NaN"

fun lift2 :: "(real \<Rightarrow> real \<Rightarrow> real) \<Rightarrow> pyfloat \<Rightarrow> pyfloat \<Rightarrow> pyfloat" where
  "lift2 f (Fl a) (Fl b) = Fl (f a b)"
| "lift2 f _ _ = NaN"

definition fadd :: "pyfloat \<Rightarrow> pyfloat \<Rightarrow> pyfloat" where
  "fadd = lift2 (+)"

definition fsub :: "pyfloat \<Rightarrow> pyfloat \<Rightarrow> pyfloat" where
  "fsub = lift2 (-)"

definition fmul :: "pyfloat \<Rightarrow> pyfloat \<Rightarrow> pyfloat" where
  "fmul = lift2 (*)"

text \<open>Division, used only where the source has checked the divisor.\<close>

definition fdiv :: "pyfloat \<Rightarrow> pyfloat \<Rightarrow> pyfloat" where
  "fdiv = lift2 (/)"

definition fabs :: "pyfloat \<Rightarrow> pyfloat" where
  "fabs = lift1 abs"

text \<open>\<open>a < b\<close>: false as soon as one side is NaN.\<close>

fun flt :: "pyfloat \<Rightarrow> pyfloat \<Rightarrow> bool" where
  "flt (Fl a) (Fl b) = (a < b)"
| "flt _ _ = False"

text \<open>\<open>sum(xs)\<close> adds from the left, starting at 0.\<close>

definition fsum :: "pyfloat list \<Rightarrow> pyfloat" where
  "fsum xs = foldl fadd (Fl 0) xs"

text \<open>\<open>round(x, n)\<close>: to the nearest multiple of \<open>10 ^ -n\<close>, a tie to the even one.\<close>

definition round_half_even :: "real \<Rightarrow> int" where
  "round_half_even x =
     (let f = \<lfloor>x\<rfloor>; d = x - of_int f
      in if d < 1 / 2 then f else if 1 / 2 < d then f + 1
         else if even f then f else f + 1)"

definition py_round :: "real \<Rightarrow> nat \<Rightarrow> real" where
  "py_round x n = of_int (round_half_even (x * 10 ^ n)) / 10 ^ n"

definition fround :: "pyfloat \<Rightarrow> nat \<Rightarrow> pyfloat" where
  "fround x n = lift1 (\<lambda>r. py_round r n) x"

text \<open>\<open>min(a, b)\<close> and \<open>min(xs)\<close>, \<open>max(xs)\<close> of a non-empty list: the first value stays
  unless a later one compares strictly below (above) it.\<close>

definition py_min2 :: "pyfloat \<Rightarrow> pyfloat \<Rightarrow> pyfloat" where
  "py_min2 a b = (if flt b a then b else a)"

definition py_min :: "pyfloat list \<Rightarrow> pyfloat" where
  "py_min xs = foldl py_min2 (hd xs) (tl xs)"

definition py_max :: "pyfloat list \<Rightarrow> pyfloat" where
  "py_max xs = foldl (\<lambda>a b. if flt a b then b else a) (hd xs) (tl xs)"

text \<open>\<open>numpy.std\<close> with its default \<open>ddof = 0\<close>: the root of the mean squared
  deviation from the mean.\<close>

definition np_std :: "pyfloat list \<Rightarrow> pyfloat" where
  "np_std xs =
     (let n = Fl (real (length xs));
          mean = fdiv (fsum xs) n
      in lift1 sqrt (fdiv (fsum (map (\<lambda>x. lift1 (\<lambda>d. (abs d)\<^sup>2) (fsub x mean)) xs)) n))"

subsection \<open>\<open>_combine_data\<close>\<close>

record category_score =
  cs_points_earned :: int
  points_possible :: int
  normalized_score :: pyfloat
  normalized_self_assessment :: "pyfloat option"

record total_score_rec =
  ts_points_earned :: int
  ts_points_possible :: int
  ts_normalized_score :: pyfloat

record user_data = user +
  total_score :: total_score_rec
  score_by_category :: "(cell \<times> category_score) list"

record metadata =
  total_questions :: nat
  total_users :: nat
  total_points_possible :: int
  self_assessment_categories :: "cell list"
  max_score :: int

record model =
  questions :: "(nat \<times> question) list"
  users :: "(cell \<times> user_data) list"
  metadata :: metadata

text \<open>The loop over a user's responses: per-category and total sums. The accumulator is
  the category dict (points earned, points possible) and the two totals.\<close>

definition tally_step :: "(nat \<times> question) list \<Rightarrow> nat \<times> response
    \<Rightarrow> (cell \<times> int \<times> int) list \<times> int \<times> int
    \<Rightarrow> error + (cell \<times> int \<times> int) list \<times> int \<times> int" where
  "tally_step qs item acc =
     (case acc of (category_scores, total_points, total_possible) \<Rightarrow>
        (case map_of qs (fst item) of
           None \<Rightarrow> Inl KeyError
         | Some q \<Rightarrow>
             (let category = q_category q;
                  cs1 = (if category \<in> set (map fst category_scores) then category_scores
                         else AList.update category (0, 0) category_scores);
                  cs2 = AList.map_entry category
                          (\<lambda>(e, p). (e + points_earned (snd item), p + worth (snd item))) cs1
              in Inr (cs2, total_points + points_earned (snd item),
                      total_possible + worth (snd item)))))"

text \<open>The loop that normalizes each category: the quiz score, and the self-assessment
  over 10 where the user has a record with a score for the category.\<close>

definition normalize_category :: "self_assessment_rec option \<Rightarrow> cell \<times> int \<times> int
    \<Rightarrow> cell \<times> category_score" where
  "normalize_category sa item =
     (case item of (category, e, p) \<Rightarrow>
        (category,
         \<lparr>cs_points_earned = e, points_possible = p,
          normalized_score = (if 0 < p then Fl (real_of_int e / real_of_int p) else Fl 0),
          normalized_self_assessment =
            (case sa of
               None \<Rightarrow> None
             | Some rec \<Rightarrow>
                 if scores rec \<noteq> []
                 then (case map_of (scores rec) category of
                         None \<Rightarrow> None
                       | Some s \<Rightarrow> Some (fdiv s (Fl 10)))
                 else None)\<rparr>))"

definition combine_user :: "(nat \<times> question) list \<Rightarrow> user \<Rightarrow> error + user_data" where
  "combine_user qs u =
     (case for_each (tally_step qs) (responses u) ([], 0, 0) of
        Inl e \<Rightarrow> Inl e
      | Inr (category_scores, total_points, total_possible) \<Rightarrow>
          Inr \<lparr>responses = responses u, self_assessment = self_assessment u,
               total_score =
                 \<lparr>ts_points_earned = total_points, ts_points_possible = total_possible,
                  ts_normalized_score =
                    (if 0 < total_possible
                     then Fl (real_of_int total_points / real_of_int total_possible)
                     else Fl 0)\<rparr>,
               score_by_category =
                 map (normalize_category (self_assessment u)) category_scores\<rparr>)"

text \<open>The categories some user has a self-assessment score for (a Python set turned into
  a list; the model lists them in order of first appearance).\<close>

definition collect_self_assessment_categories :: "user list \<Rightarrow> cell list" where
  "collect_self_assessment_categories us =
     remdups (concat (map (\<lambda>u. case self_assessment u of
                                   None \<Rightarrow> []
                                 | Some rec \<Rightarrow> map fst (scores rec)) us))"

text \<open>Of the metadata, the per-category descriptors are left out: no claim reads them.\<close>

definition combine_step :: "(nat \<times> question) list \<Rightarrow> cell \<times> user
    \<Rightarrow> (cell \<times> user_data) list \<Rightarrow> error + (cell \<times> user_data) list" where
  "combine_step qs item acc =
     (case combine_user qs (snd item) of
        Inl e \<Rightarrow> Inl e
      | Inr ud \<Rightarrow> Inr (acc @ [(fst item, ud)]))"

definition combine_data :: "(nat \<times> question) list \<Rightarrow> (cell \<times> user) list \<Rightarrow> error + model" where
  "combine_data qs us =
     (case for_each (combine_step qs) us [] of
        Inl e \<Rightarrow> Inl e
      | Inr uds \<Rightarrow>
          Inr \<lparr>questions = qs, users = uds,
               metadata =
                 \<lparr>total_questions = length qs, total_users = length us,
                  total_points_possible = sum_list (map (\<lambda>(_, q). q_worth q) qs),
                  self_assessment_categories =
                    collect_self_assessment_categories (map snd us),
                  max_score = 10\<rparr>\<rparr>)"

subsection \<open>\<open>load_all_data\<close>\<close>

definition load_all_data :: "data_dir \<Rightarrow> error + model \<times> string list" where
  "load_all_data d =
     (case load_questions (questions_csv d) of
        Inl e \<Rightarrow> Inl e
      | Inr (qs, quiz_categories) \<Rightarrow>
          (case load_responses qs (results_csv d) [] of
             Inl e \<Rightarrow> Inl e
           | Inr us \<Rightarrow>
               (case load_self_assessment quiz_categories (self_assessment_csv d) us of
                  Inl e \<Rightarrow> Inl e
                | Inr (us', printed) \<Rightarrow>
                    (case combine_data qs us' of
                       Inl e \<Rightarrow> Inl e
                     | Inr m \<Rightarrow> Inr (m, printed)))))"

section \<open>PerformanceAnalyzer\<close>

record mc_score =
  mc_category :: cell
  points :: int
  possible :: int
  percentage :: pyfloat

record self_score =
  ss_category :: cell
  score :: pyfloat
  out_of :: int

record comparison_entry =
  category :: cell
  quiz_normalized :: pyfloat
  self_normalized :: pyfloat
  difference :: pyfloat

record proficiency_rec =
  overall_proficiency :: pyfloat
  performance_score :: pyfloat
  accuracy_score :: pyfloat
  consistency_score :: pyfloat
  differences :: "pyfloat list"
  std_dev :: pyfloat

text \<open>The analysis of one user; the nested dicts of the source are flattened, the
  prefix naming the section (\<open>ts\<close> total score, \<open>mc\<close> quiz, \<open>sa\<close> self-assessment;
  the comparison section keeps the source's keys).\<close>

record user_analysis =
  ts_points :: int
  ts_possible :: int
  ts_percentage :: pyfloat
  mc_scores :: "mc_score list"
  mc_total_points :: int
  mc_total_possible :: int
  sa_scores :: "self_score list"
  sa_average :: pyfloat
  by_category :: "comparison_entry list"
  average_difference :: pyfloat
  accurate_count :: nat
  overestimate_count :: nat
  underestimate_count :: nat
  proficiency :: "proficiency_rec option"

subsection \<open>\<open>calculate_proficiency_score\<close>\<close>

text \<open>Returns \<open>None\<close> (no \<open>return\<close> is reached) when there is no comparison entry.\<close>

definition calculate_proficiency_score :: "user_analysis \<Rightarrow> proficiency_rec option" where
  "calculate_proficiency_score ua =
     (let performance = ts_percentage ua
      in if by_category ua \<noteq> [] then
           (let ds = map difference (by_category ua);
                avg_abs_diff = fdiv (fsum (map fabs ds)) (Fl (real (length ds)));
                accuracy = fmul (fsub (Fl 1) avg_abs_diff) (Fl 100);
                sd = (if 1 < length ds then np_std ds else Fl 0);
                consistency = fmul (fsub (Fl 1) (py_min2 sd (Fl 1))) (Fl 100);
                proficiency_score =
                  fadd (fadd (fmul (Fl (60 / 100)) performance)
                             (fmul (Fl (20 / 100)) accuracy))
                       (fmul (Fl (20 / 100)) consistency)
            in Some \<lparr>overall_proficiency = fround proficiency_score 1,
                     performance_score = fround performance 1,
                     accuracy_score = fround accuracy 1,
                     consistency_score = fround consistency 1,
                     differences = ds, std_dev = sd\<rparr>)
         else None)"

subsection \<open>\<open>analyze_user_performance\<close>\<close>

text \<open>The body of the loop over a user's categories. The accumulator is the three lists
  \<open>mc_scores\<close>, \<open>self_scores\<close>, \<open>comparisons\<close>. Subscripting the \<open>None\<close> of a user
  without self-assessment raises TypeError; reading a \<open>normalized_self_assessment\<close>
  that was never stored raises KeyError.\<close>

definition category_step :: "cell list \<Rightarrow> int \<Rightarrow> user_data \<Rightarrow> cell \<times> category_score
    \<Rightarrow> mc_score list \<times> self_score list \<times> comparison_entry list
    \<Rightarrow> error + mc_score list \<times> self_score list \<times> comparison_entry list" where
  "category_step self_assessed_categories mx ud item acc =
     (case acc of (mcs, self_scores, comparisons) \<Rightarrow>
        (let cat = fst item; sc = snd item;
             mcs1 = (if 0 < points_possible sc
                     then mcs @ [\<lparr>mc_category = cat, points = cs_points_earned sc,
                                  possible = points_possible sc,
                                  percentage =
                                    Fl (py_round (real_of_int (cs_points_earned sc)
                                          / real_of_int (points_possible sc) * 100) 1)\<rparr>]
                     else mcs)
         in if cat \<in> set self_assessed_categories then
              if 0 < points_possible sc then
                (case self_assessment ud of
                   None \<Rightarrow> Inl TypeError
                 | Some rec \<Rightarrow>
                     (let self_sc = (case map_of (scores rec) cat of
                                       Some v \<Rightarrow> v
                                     | None \<Rightarrow> Fl 0)
                      in case normalized_self_assessment sc of
                           None \<Rightarrow> Inl KeyError
                         | Some nsa \<Rightarrow>
                             Inr (mcs1,
                                  self_scores @ [\<lparr>ss_category = cat, score = self_sc,
                                                  out_of = mx\<rparr>],
                                  comparisons @ [\<lparr>category = cat,
                                                  quiz_normalized = normalized_score sc,
                                                  self_normalized = nsa,
                                                  difference =
                                                    fsub (normalized_score sc) nsa\<rparr>])))
              else Inr (mcs1, self_scores, comparisons)
            else Inr (mcs1, self_scores, comparisons)))"

text \<open>The body of the loop over the users: the analysis of one user, from the global
  list of self-assessed categories, the scale's maximum and the user's data.\<close>

definition analyze_user :: "cell list \<Rightarrow> int \<Rightarrow> user_data \<Rightarrow> error + user_analysis" where
  "analyze_user self_assessed_categories mx ud =
     (case for_each (category_step self_assessed_categories mx ud)
             (score_by_category ud) ([], [], []) of
        Inl e \<Rightarrow> Inl e
      | Inr (mcs, self_scores, comparisons) \<Rightarrow>
          (let tot = total_score ud;
               total_percentage =
                 (if 0 < ts_points_possible tot
                  then Fl (py_round (real_of_int (ts_points_earned tot)
                             / real_of_int (ts_points_possible tot) * 100) 1)
                  else Fl 0);
               ua = \<lparr>ts_points = ts_points_earned tot,
                     ts_possible = ts_points_possible tot,
                     ts_percentage = total_percentage,
                     mc_scores = mcs,
                     mc_total_points = sum_list (map points mcs),
                     mc_total_possible = sum_list (map possible mcs),
                     sa_scores = self_scores,
                     sa_average =
                       (if self_scores \<noteq> []
                        then fround (fdiv (fsum (map score self_scores))
                                      (Fl (real (length self_scores)))) 1
                        else Fl 0),
                     by_category = comparisons,
                     average_difference =
                       (if comparisons \<noteq> []
                        then fround (fdiv (fsum (map difference comparisons))
                                      (Fl (real (length comparisons)))) 3
                        else Fl 0),
                     accurate_count =
                       length [c \<leftarrow> comparisons. flt (fabs (difference c)) (Fl (1 / 10))],
                     overestimate_count =
                       length [c \<leftarrow> comparisons. flt (difference c) (Fl (- (1 / 10)))],
                     underestimate_count =
                       length [c \<leftarrow> comparisons. flt (Fl (1 / 10)) (difference c)],
                     proficiency = None\<rparr>
           in Inr (ua\<lparr>proficiency := calculate_proficiency_score ua\<rparr>)))"

text \<open>The loop over the users; an exception in one user's analysis ends the run.\<close>

definition analyze_user_performance :: "model \<Rightarrow> error + (cell \<times> user_analysis) list" where
  "analyze_user_performance m =
     for_each (\<lambda>(user_id, ud) analysis.
                 case analyze_user (self_assessment_categories (metadata m))
                        (max_score (metadata m)) ud of
                   Inl e \<Rightarrow> Inl e
                 | Inr ua \<Rightarrow> Inr (AList.update user_id ua analysis))
       (users m) []"

subsection \<open>\<open>get_overall_statistics\<close>\<close>

record comparison_stats =
  cs_average_difference :: pyfloat
  cs_accurate_ratio :: pyfloat
  cs_overestimate_ratio :: pyfloat
  cs_underestimate_ratio :: pyfloat

record overall_statistics =
  qp_total_points :: int
  qp_total_possible :: int
  qp_average_percentage :: pyfloat
  sa_average_score :: pyfloat
  sa_total_users :: nat
  sa_min_average :: pyfloat
  sa_max_average :: pyfloat
  cmp_total_users :: nat
  cmp_average_difference :: pyfloat
  cmp_accurate_ratio :: pyfloat
  cmp_overestimate_ratio :: pyfloat
  cmp_underestimate_ratio :: pyfloat

text \<open>The three lists the loop over the users' analyses fills.\<close>

definition all_scores_of :: "user_analysis list \<Rightarrow> mc_score list" where
  "all_scores_of uas = concat (map mc_scores uas)"

definition user_self_assessment_averages :: "user_analysis list \<Rightarrow> pyfloat list" where
  "user_self_assessment_averages uas = map sa_average [ua \<leftarrow> uas. sa_scores ua \<noteq> []]"

definition user_comparison_stats :: "user_analysis list \<Rightarrow> comparison_stats list" where
  "user_comparison_stats uas =
     map (\<lambda>ua. let n = real (length (by_category ua))
               in \<lparr>cs_average_difference = average_difference ua,
                   cs_accurate_ratio = Fl (real (accurate_count ua) / n),
                   cs_overestimate_ratio = Fl (real (overestimate_count ua) / n),
                   cs_underestimate_ratio = Fl (real (underestimate_count ua) / n)\<rparr>)
       [ua \<leftarrow> uas. by_category ua \<noteq> []]"

text \<open>The four cross-user means divide by \<open>num_users\<close> with no check: with no user
  holding comparison data the first division raises ZeroDivisionError.\<close>

definition get_overall_statistics :: "(cell \<times> user_analysis) list
    \<Rightarrow> error + overall_statistics" where
  "get_overall_statistics analysis =
     (let uas = map snd analysis;
          all_scores = all_scores_of uas;
          averages = user_self_assessment_averages uas;
          stats = user_comparison_stats uas;
          num_users = length stats
      in if num_users = 0 then Inl ZeroDivisionError
         else
           (let mean = (\<lambda>field. fround (fdiv (fsum (map field stats))
                                          (Fl (real num_users))) 3)
            in Inr \<lparr>qp_total_points = sum_list (map points all_scores),
                    qp_total_possible = sum_list (map possible all_scores),
                    qp_average_percentage =
                      (if all_scores \<noteq> []
                       then fround (fdiv (fsum (map percentage all_scores))
                                     (Fl (real (length all_scores)))) 1
                       else Fl 0),
                    sa_average_score =
                      (if averages \<noteq> []
                       then fround (fdiv (fsum averages) (Fl (real (length averages)))) 1
                       else Fl 0),
                    sa_total_users = length averages,
                    sa_min_average = (if averages \<noteq> [] then fround (py_min averages) 1 else Fl 0),
                    sa_max_average = (if averages \<noteq> [] then fround (py_max averages) 1 else Fl 0),
                    cmp_total_users = num_users,
                    cmp_average_difference = mean cs_average_difference,
                    cmp_accurate_ratio = mean cs_accurate_ratio,
                    cmp_overestimate_ratio = mean cs_overestimate_ratio,
                    cmp_underestimate_ratio = mean cs_underestimate_ratio\<rparr>))"

subsection \<open>\<open>main\<close>\<close>

text \<open>The script's entry point up to the statistics: load, analyze every user, aggregate.\<close>

definition analyze_quiz :: "data_dir \<Rightarrow> error + (cell \<times> user_analysis) list" where
  "analyze_quiz d =
     (case load_all_data d of
        Inl e \<Rightarrow> Inl e
      | Inr (m, printed) \<Rightarrow> analyze_user_performance m)"

definition main_statistics :: "data_dir \<Rightarrow> error + overall_statistics" where
  "main_statistics d =
     (case analyze_quiz d of
        Inl e \<Rightarrow> Inl e
      | Inr analysis \<Rightarrow> get_overall_statistics analysis)"

section \<open>Auxiliary notions for the proofs\<close>

text \<open>The comparison entries of each user of an analysis.\<close>

definition comparison_lists :: "(cell \<times> user_analysis) list
    \<Rightarrow> (cell \<times> comparison_entry list) list" where
  "comparison_lists analysis = map (\<lambda>item. (fst item, by_category (snd item))) analysis"

text \<open>The response a results row holds for a question, if its text heads a column.\<close>

definition row_response :: "string list \<Rightarrow> (string \<Rightarrow> cell) \<Rightarrow> question \<Rightarrow> response option" where
  "row_response cols row q =
     (case q_text q of
        Text name \<Rightarrow> if name \<in> set cols
                     then Some (derive_response (row ''date_time'') (row name) q) else None
      | _ \<Rightarrow> None)"

definition resp_ok :: "(nat \<times> question) list \<Rightarrow> string list \<Rightarrow> (nat \<times> response) list \<Rightarrow> bool" where
  "resp_ok qs cols resp \<longleftrightarrow>
     distinct (map fst resp) \<and>
     (\<forall>qid r. map_of resp qid = Some r \<longrightarrow>
        (\<exists>q row. map_of qs qid = Some q \<and> row_response cols row q = Some r))"

definition users_ok :: "(nat \<times> question) list \<Rightarrow> string list \<Rightarrow> (cell \<times> user) list \<Rightarrow> bool" where
  "users_ok qs cols us \<longleftrightarrow>
     distinct (map fst us) \<and>
     (\<forall>uid u. map_of us uid = Some u \<longrightarrow> resp_ok qs cols (responses u))"

text \<open>The categories of a user that enter the self-assessment and comparison lists.\<close>

definition compared :: "cell list \<Rightarrow> cell \<times> category_score \<Rightarrow> bool" where
  "compared cats item \<longleftrightarrow> fst item \<in> set cats \<and> 0 < points_possible (snd item)"

text \<open>The entries the loop appends for such a category, given the user's record and the
  stored normalized self-assessment.\<close>

definition self_entry :: "int \<Rightarrow> self_assessment_rec \<Rightarrow> cell \<times> category_score \<Rightarrow> self_score" where
  "self_entry mx rec item =
     \<lparr>ss_category = fst item,
      score = (case map_of (scores rec) (fst item) of Some v \<Rightarrow> v | None \<Rightarrow> Fl 0),
      out_of = mx\<rparr>"

definition comparison_of :: "cell \<times> category_score \<Rightarrow> pyfloat \<Rightarrow> comparison_entry" where
  "comparison_of item nsa =
     \<lparr>category = fst item, quiz_normalized = normalized_score (snd item),
      self_normalized = nsa, difference = fsub (normalized_score (snd item)) nsa\<rparr>"

section \<open>Concrete data directories\<close>

text \<open>A row written as its non-empty cells.\<close>

definition cells :: "(string \<times> cell) list \<Rightarrow> string \<Rightarrow> cell" where
  "cells kvs name = (case map_of kvs name of None \<Rightarrow> Missing | Some v \<Rightarrow> v)"

text \<open>One question worth 1 in category X; two users, the first answers it, the second
  gives the right answer in the wrong case.\<close>

definition one_question :: table where
  "one_question =
     \<lparr>columns = [''question'', ''category'', ''answer'', ''value''],
      rows = [cells [(''question'', Text ''Capital?''), (''category'', Text ''X''),
                     (''answer'', Text ''Paris''), (''value'', Number 1)]]\<rparr>"

definition two_users :: table where
  "two_users =
     \<lparr>columns = [''date_time'', ''user_id'', ''Capital?''],
      rows = [cells [(''date_time'', Text ''t1''), (''user_id'', Text ''u1''),
                     (''Capital?'', Text ''Paris'')],
              cells [(''date_time'', Text ''t2''), (''user_id'', Text ''u2''),
                     (''Capital?'', Text ''paris'')]]\<rparr>"

text \<open>Only the first user rates category X.\<close>

definition first_user_rated :: table where
  "first_user_rated =
     \<lparr>columns = [''date_time'', ''user_id'', ''X''],
      rows = [cells [(''date_time'', Text ''t1''), (''user_id'', Text ''u1''),
                     (''X'', Number 9)]]\<rparr>"

text \<open>Scenario C of the specification: no self-assessment file.\<close>

definition scenario_C :: data_dir where
  "scenario_C = \<lparr>questions_csv = Some one_question, results_csv = Some two_users,
                  self_assessment_csv = None\<rparr>"

text \<open>Scenario E of the specification: one user fully self-assessed, one not at all.\<close>

definition scenario_E :: data_dir where
  "scenario_E = \<lparr>questions_csv = Some one_question, results_csv = Some two_users,
                  self_assessment_csv = Some first_user_rated\<rparr>"

text \<open>The models the loader builds from them.\<close>

definition the_question :: "(nat \<times> question) list" where
  "the_question = [(1, \<lparr>q_text = Text ''Capital?'', q_category = Text ''X'',
                        correct_answer = Text ''Paris'', q_worth = 1\<rparr>)]"

definition first_user :: "self_assessment_rec option \<Rightarrow> pyfloat option \<Rightarrow> user_data" where
  "first_user sa nsa =
     \<lparr>responses = [(1, \<lparr>r_timestamp = Text ''t1'', answer = Text ''Paris'',
                        is_correct = True, points_earned = 1, worth = 1\<rparr>)],
      self_assessment = sa,
      total_score = \<lparr>ts_points_earned = 1, ts_points_possible = 1,
                     ts_normalized_score = Fl 1\<rparr>,
      score_by_category =
        [(Text ''X'', \<lparr>cs_points_earned = 1, points_possible = 1, normalized_score = Fl 1,
                       normalized_self_assessment = nsa\<rparr>)]\<rparr>"

definition second_user :: user_data where
  "second_user =
     \<lparr>responses = [(1, \<lparr>r_timestamp = Text ''t2'', answer = Text ''paris'',
                        is_correct = False, points_earned = 0, worth = 1\<rparr>)],
      self_assessment = None,
      total_score = \<lparr>ts_points_earned = 0, ts_points_possible = 1,
                     ts_normalized_score = Fl 0\<rparr>,
      score_by_category =
        [(Text ''X'', \<lparr>cs_points_earned = 0, points_possible = 1, normalized_score = Fl 0,
                       normalized_self_assessment = None\<rparr>)]\<rparr>"

text \<open>The first user of the scenarios, rating category X with \<open>v\<close>.\<close>

definition rated_user :: "real \<Rightarrow> user_data" where
  "rated_user v =
     first_user (Some \<lparr>sa_timestamp = Text ''t1'', scores = [(Text ''X'', Fl v)]\<rparr>)
       (Some (Fl (v / 10)))"

definition scenario_C_model :: model where
  "scenario_C_model =
     \<lparr>questions = the_question,
      users = [(Text ''u1'', first_user None None), (Text ''u2'', second_user)],
      metadata = \<lparr>total_questions = 1, total_users = 2, total_points_possible = 1,
                  self_assessment_categories = [], max_score = 10\<rparr>\<rparr>"

definition scenario_E_model :: model where
  "scenario_E_model =
     \<lparr>questions = the_question,
      users = [(Text ''u1'', rated_user 9), (Text ''u2'', second_user)],
      metadata = \<lparr>total_questions = 1, total_users = 2, total_points_possible = 1,
                  self_assessment_categories = [Text ''X''], max_score = 10\<rparr>\<rparr>"

text \<open>One user on two rows of the results file and of the self-assessment file.\<close>

definition attempt :: "string \<Rightarrow> string \<Rightarrow> string \<Rightarrow> cell" where
  "attempt t ans = cells [(''date_time'', Text t), (''user_id'', Text ''u1''),
                          (''Capital?'', Text ans)]"

definition rating :: "string \<Rightarrow> real \<Rightarrow> string \<Rightarrow> cell" where
  "rating t v = cells [(''date_time'', Text t), (''user_id'', Text ''u1''),
                       (''X'', Number v)]"

definition two_attempts :: table where
  "two_attempts =
     \<lparr>columns = [''date_time'', ''user_id'', ''Capital?''],
      rows = [attempt ''t1'' ''Paris'', attempt ''t2'' ''Rome'']\<rparr>"

definition two_ratings :: table where
  "two_ratings =
     \<lparr>columns = [''date_time'', ''user_id'', ''X''],
      rows = [rating ''t1'' 3, rating ''t2'' 8]\<rparr>"

definition second_attempt :: response where
  "second_attempt = \<lparr>r_timestamp = Text ''t2'', answer = Text ''Rome'', is_correct = False,
                      points_earned = 0, worth = 1\<rparr>"

definition retake_users :: "(cell \<times> user) list" where
  "retake_users = [(Text ''u1'', \<lparr>responses = [(1, second_attempt)],
                                  self_assessment = None\<rparr>)]"

definition rated_users :: "(cell \<times> user) list" where
  "rated_users =
     [(Text ''u1'', \<lparr>responses = [(1, second_attempt)],
                     self_assessment =
                       Some \<lparr>sa_timestamp = Text ''t2'', scores = [(Text ''X'', Fl 8)]\<rparr>\<rparr>)]"















section \<open>Properties of the loader\<close>

subsection \<open>Question and response loading\<close>

lemma update_fresh: "k \<notin> fst ` set al \<Longrightarrow> AList.update k v al = al @ [(k, v)]"
  by (induction al) auto

lemma question_rows_keys:
  "for_each question_row rws qs0 = Inr qs \<Longrightarrow> map fst qs0 = [1..<Suc (length qs0)]
     \<Longrightarrow> map fst qs = [1..<Suc (length qs)]"
proof (induction rws arbitrary: qs0)
  case Nil
  then show ?case by simp
next
  case (Cons row rws)
  from Cons.prems(1) obtain w where w: "py_int (row ''value'') = Inr w"
    by (auto simp: question_row_def split: sum.splits)
  let ?q = "\<lparr>q_text = row ''question'', q_category = row ''category'',
             correct_answer = row ''answer'', q_worth = w\<rparr>"
  have fresh: "Suc (length qs0) \<notin> fst ` set qs0"
  proof -
    have "fst ` set qs0 = set (map fst qs0)" by simp
    also have "\<dots> = set [1..<Suc (length qs0)]" using Cons.prems(2) by simp
    finally show ?thesis by simp
  qed
  have step: "question_row row qs0 = Inr (qs0 @ [(Suc (length qs0), ?q)])"
    using w fresh by (simp add: question_row_def update_fresh)
  have "for_each question_row rws (qs0 @ [(Suc (length qs0), ?q)]) = Inr qs"
    using Cons.prems(1) step by simp
  moreover have "map fst (qs0 @ [(Suc (length qs0), ?q)])
      = [1..<Suc (length (qs0 @ [(Suc (length qs0), ?q)]))]"
    using Cons.prems(2) by simp
  ultimately show ?case by (rule Cons.IH)
qed

lemma load_questions_rows:
  "load_questions (Some df) = Inr (qs, cats) \<Longrightarrow> for_each question_row (rows df) [] = Inr qs"
  by (auto simp: load_questions_def split: if_splits sum.splits)

lemma load_questions_distinct:
  assumes "load_questions f = Inr (qs, cats)"
  shows "distinct (map fst qs)"
proof (cases f)
  case None
  with assms show ?thesis by (simp add: load_questions_def)
next
  case (Some df)
  with assms have "for_each question_row (rows df) [] = Inr qs"
    by (simp add: load_questions_rows)
  then have "map fst qs = [1..<Suc (length qs)]"
    by (rule question_rows_keys) simp
  then show ?thesis by (metis distinct_upt)
qed

lemma question_step_map_of:
  "map_of (question_step cols row (qid, q) resp) =
     (case row_response cols row q of None \<Rightarrow> map_of resp
      | Some r \<Rightarrow> (map_of resp)(qid \<mapsto> r))"
  by (auto simp: question_step_def row_response_def AList.update_conv' split: cell.splits)

lemma question_step_distinct:
  "distinct (map fst resp) \<Longrightarrow> distinct (map fst (question_step cols row item resp))"
  by (auto simp: question_step_def AList.distinct_update split: cell.splits)

lemma fold_question_step_distinct:
  "distinct (map fst resp) \<Longrightarrow> distinct (map fst (fold (question_step cols row) qs resp))"
  by (induction qs arbitrary: resp) (auto simp: question_step_distinct)

lemma fold_question_step_map_of:
  assumes "distinct (map fst qs)"
  shows "map_of (fold (question_step cols row) qs resp) qid =
     (case map_of qs qid of
        None \<Rightarrow> map_of resp qid
      | Some q \<Rightarrow> (case row_response cols row q of
                    None \<Rightarrow> map_of resp qid
                  | Some r \<Rightarrow> Some r))"
  using assms
proof (induction qs arbitrary: resp)
  case Nil
  then show ?case by simp
next
  case (Cons item qs)
  obtain k q where item: "item = (k, q)" by (cases item)
  from Cons.prems have d: "distinct (map fst qs)" and k: "k \<notin> fst ` set qs"
    by (auto simp: item)
  have none: "map_of qs k = None" using k by (simp add: map_of_eq_None_iff)
  show ?case
  proof (cases "qid = k")
    case True
    then show ?thesis
      using Cons.IH [OF d, of "question_step cols row (k, q) resp"] none
      by (auto simp: item question_step_map_of split: option.splits)
  next
    case False
    then show ?thesis
      using Cons.IH [OF d, of "question_step cols row (k, q) resp"]
      by (auto simp: item question_step_map_of split: option.splits)
  qed
qed

lemma row_response_None_any:
  "row_response cols row q = None \<Longrightarrow> row_response cols row' q = None"
  by (auto simp: row_response_def split: cell.splits if_splits)

lemma resp_ok_Nil: "resp_ok qs cols []"
  by (simp add: resp_ok_def)

lemma resp_ok_fold:
  assumes "distinct (map fst qs)" and "resp_ok qs cols resp"
  shows "resp_ok qs cols (fold (question_step cols row) qs resp)"
  unfolding resp_ok_def
proof (intro conjI allI impI)
  show "distinct (map fst (fold (question_step cols row) qs resp))"
    using assms(2) by (simp add: resp_ok_def fold_question_step_distinct)
next
  fix qid r
  assume "map_of (fold (question_step cols row) qs resp) qid = Some r"
  then have "map_of resp qid = Some r
      \<or> (\<exists>q. map_of qs qid = Some q \<and> row_response cols row q = Some r)"
    unfolding fold_question_step_map_of [OF assms(1)]
    by (simp split: option.splits)
  then show "\<exists>q row. map_of qs qid = Some q \<and> row_response cols row q = Some r"
    using assms(2) unfolding resp_ok_def by blast
qed

text \<open>Whatever a user held before, a row of the results file leaves the user with the
  responses of that row alone.\<close>

lemma fold_question_step_overwrites:
  assumes "distinct (map fst qs)" and "resp_ok qs cols resp"
  shows "map_of (fold (question_step cols row) qs resp)
       = map_of (fold (question_step cols row) qs [])"
proof
  fix qid
  show "map_of (fold (question_step cols row) qs resp) qid
      = map_of (fold (question_step cols row) qs []) qid"
  proof (cases "map_of resp qid")
    case None
    then show ?thesis
      by (simp add: fold_question_step_map_of [OF assms(1)] split: option.splits)
  next
    case (Some r)
    with assms(2) obtain q row' where q: "map_of qs qid = Some q"
        and r: "row_response cols row' q = Some r"
      unfolding resp_ok_def by blast
    have "row_response cols row q \<noteq> None"
      using r row_response_None_any [of cols row q row'] by auto
    then show ?thesis
      using q by (auto simp: fold_question_step_map_of [OF assms(1)] split: option.splits)
  qed
qed

lemma in_keys_iff: "k \<in> set (map fst al) \<longleftrightarrow> map_of al k \<noteq> None"
  by (simp add: map_of_eq_None_iff)

lemma response_row_map_of:
  "map_of (response_row qs cols row us) uid =
     (if uid = row ''user_id''
      then (let u = (case map_of us uid of None \<Rightarrow> \<lparr>responses = [], self_assessment = None\<rparr>
                                       | Some u \<Rightarrow> u)
            in Some (u\<lparr>responses := fold (question_step cols row) qs (responses u)\<rparr>))
      else map_of us uid)"
  unfolding response_row_def Let_def in_keys_iff
  by (auto simp: AList.map_of_map_entry AList.update_conv')

lemma response_row_distinct:
  "distinct (map fst us) \<Longrightarrow> distinct (map fst (response_row qs cols row us))"
  unfolding response_row_def Let_def
  by (auto intro!: AList.distinct_map_entry AList.distinct_update)

lemma users_ok_response_row:
  assumes "distinct (map fst qs)" and "users_ok qs cols us"
  shows "users_ok qs cols (response_row qs cols row us)"
  unfolding users_ok_def
proof (intro conjI allI impI)
  show "distinct (map fst (response_row qs cols row us))"
    using assms(2) by (simp add: users_ok_def response_row_distinct)
next
  fix uid u
  assume u: "map_of (response_row qs cols row us) uid = Some u"
  show "resp_ok qs cols (responses u)"
  proof (cases "uid = row ''user_id''")
    case False
    with u assms(2) show ?thesis by (simp add: response_row_map_of users_ok_def)
  next
    case True
    define u0 where "u0 = (case map_of us uid of
        None \<Rightarrow> \<lparr>responses = [], self_assessment = None\<rparr> | Some u \<Rightarrow> u)"
    have "resp_ok qs cols (responses u0)"
      using assms(2) by (auto simp: u0_def users_ok_def resp_ok_Nil split: option.splits)
    moreover have "responses u = fold (question_step cols row) qs (responses u0)"
      using u True by (auto simp: response_row_map_of u0_def Let_def)
    ultimately show ?thesis using resp_ok_fold [OF assms(1)] by simp
  qed
qed

lemma users_ok_fold:
  assumes "distinct (map fst qs)"
  shows "users_ok qs cols us \<Longrightarrow> users_ok qs cols (fold (response_row qs cols) rws us)"
  by (induction rws arbitrary: us) (simp_all add: users_ok_response_row [OF assms])

lemma fold_response_row_other:
  "\<forall>r \<in> set rws. r ''user_id'' \<noteq> uid
     \<Longrightarrow> map_of (fold (response_row qs cols) rws us) uid = map_of us uid"
  by (induction rws arbitrary: us) (auto simp: response_row_map_of)

lemma fold_response_row_last:
  assumes dq: "distinct (map fst qs)" and ok: "users_ok qs cols us"
    and post: "\<forall>r \<in> set post. r ''user_id'' \<noteq> row ''user_id''"
  shows "\<exists>u. map_of (fold (response_row qs cols) (pre @ row # post) us) (row ''user_id'') = Some u
            \<and> map_of (responses u) = map_of (fold (question_step cols row) qs [])"
proof -
  let ?mid = "fold (response_row qs cols) pre us"
  define u0 where "u0 = (case map_of ?mid (row ''user_id'') of
      None \<Rightarrow> \<lparr>responses = [], self_assessment = None\<rparr> | Some u \<Rightarrow> u)"
  have "users_ok qs cols ?mid" using ok by (rule users_ok_fold [OF dq])
  then have r0: "resp_ok qs cols (responses u0)"
    by (auto simp: u0_def users_ok_def resp_ok_Nil split: option.splits)
  have "map_of (fold (response_row qs cols) (pre @ row # post) us) (row ''user_id'')
      = map_of (response_row qs cols row ?mid) (row ''user_id'')"
    using post by (simp add: fold_response_row_other)
  also have "\<dots> = Some (u0\<lparr>responses := fold (question_step cols row) qs (responses u0)\<rparr>)"
    by (simp add: response_row_map_of u0_def Let_def)
  finally show ?thesis
    using fold_question_step_overwrites [OF dq r0] by simp
qed

subsection \<open>Self-assessment loading\<close>

lemma for_each_append:
  "for_each body (xs @ ys) s =
     (case for_each body xs s of Inl e \<Rightarrow> Inl e | Inr s' \<Rightarrow> for_each body ys s')"
  by (induction xs arbitrary: s) (auto split: sum.splits)



lemma map_fst_map_entry: "map fst (AList.map_entry k f xs) = map fst xs"
  by (induction xs) auto

lemma assessment_row_keys:
  "assessment_row cats cols row us = Inr us' \<Longrightarrow> map fst us' = map fst us"
  by (auto simp: assessment_row_def Let_def map_fst_map_entry split: if_splits sum.splits)

lemma assessment_row_map_of:
  assumes "assessment_row cats cols row us = Inr us'"
  shows "map_of us' uid =
     (if uid = row ''user_id''
      then (case map_of us uid of
              None \<Rightarrow> None
            | Some u \<Rightarrow>
                (case for_each (score_step cols row) cats [] of
                   Inl e \<Rightarrow> None
                 | Inr sc \<Rightarrow> Some (u\<lparr>self_assessment :=
                                        Some \<lparr>sa_timestamp = row ''date_time'', scores = sc\<rparr>\<rparr>)))
      else map_of us uid)"
  using assms unfolding assessment_row_def Let_def in_keys_iff
  by (auto simp: AList.map_of_map_entry split: if_splits sum.splits option.splits)

lemma assessment_rows_keys:
  "for_each (assessment_row cats cols) rws us = Inr us' \<Longrightarrow> map fst us' = map fst us"
proof (induction rws arbitrary: us)
  case Nil
  then show ?case by simp
next
  case (Cons row rws)
  then obtain us1 where "assessment_row cats cols row us = Inr us1"
      and "for_each (assessment_row cats cols) rws us1 = Inr us'"
    by (auto split: sum.splits)
  then show ?case using Cons.IH assessment_row_keys by metis
qed

lemma assessment_rows_other:
  "for_each (assessment_row cats cols) rws us = Inr us'
     \<Longrightarrow> \<forall>r \<in> set rws. r ''user_id'' \<noteq> uid \<Longrightarrow> map_of us' uid = map_of us uid"
proof (induction rws arbitrary: us)
  case Nil
  then show ?case by simp
next
  case (Cons row rws)
  from Cons.prems(1) obtain us1 where 1: "assessment_row cats cols row us = Inr us1"
      and 2: "for_each (assessment_row cats cols) rws us1 = Inr us'"
    by (auto split: sum.splits)
  have "map_of us' uid = map_of us1 uid" using Cons.IH [OF 2] Cons.prems(2) by simp
  also have "\<dots> = map_of us uid"
    using assessment_row_map_of [OF 1, of uid] Cons.prems(2) by auto
  finally show ?case .
qed

lemma assessment_rows_responses:
  "for_each (assessment_row cats cols) rws us = Inr us'
     \<Longrightarrow> map_option responses (map_of us' uid) = map_option responses (map_of us uid)"
proof (induction rws arbitrary: us)
  case Nil
  then show ?case by simp
next
  case (Cons row rws)
  from Cons.prems(1) obtain us1 where 1: "assessment_row cats cols row us = Inr us1"
      and 2: "for_each (assessment_row cats cols) rws us1 = Inr us'"
    by (auto split: sum.splits)
  have "map_option responses (map_of us1 uid) = map_option responses (map_of us uid)"
    using 1 assessment_row_map_of [OF 1, of uid]
    by (auto simp: assessment_row_def Let_def in_keys_iff split: option.splits sum.splits if_splits)
  then show ?case using Cons.IH [OF 2] by simp
qed

text \<open>The last row of a user in the self-assessment file decides the user's record.\<close>

lemma assessment_rows_last:
  assumes run: "for_each (assessment_row cats cols) (pre @ row # post) us = Inr us'"
    and post: "\<forall>r \<in> set post. r ''user_id'' \<noteq> row ''user_id''"
    and known: "map_of us (row ''user_id'') = Some u0"
  shows "\<exists>sc u. for_each (score_step cols row) cats [] = Inr sc
           \<and> map_of us' (row ''user_id'') = Some u
           \<and> self_assessment u = Some \<lparr>sa_timestamp = row ''date_time'', scores = sc\<rparr>
           \<and> responses u = responses u0"
proof -
  from run obtain us1 us2 where 1: "for_each (assessment_row cats cols) pre us = Inr us1"
      and 2: "assessment_row cats cols row us1 = Inr us2"
      and 3: "for_each (assessment_row cats cols) post us2 = Inr us'"
    by (auto simp: for_each_append split: sum.splits)
  from assessment_rows_responses [OF 1, of "row ''user_id''"] known
  obtain u1 where u1: "map_of us1 (row ''user_id'') = Some u1"
      and r1: "responses u1 = responses u0"
    by (auto simp: map_option_case split: option.splits)
  have mem: "row ''user_id'' \<in> set (map fst us1)"
    using u1 by (simp only: in_keys_iff) simp
  obtain sc where sc: "for_each (score_step cols row) cats [] = Inr sc"
    using 2 mem unfolding assessment_row_def Let_def
    by (cases "for_each (score_step cols row) cats []") auto
  have "map_of us' (row ''user_id'') = map_of us2 (row ''user_id'')"
    using assessment_rows_other [OF 3 post] .
  also have "\<dots> = Some (u1\<lparr>self_assessment :=
                         Some \<lparr>sa_timestamp = row ''date_time'', scores = sc\<rparr>\<rparr>)"
    using assessment_row_map_of [OF 2, of "row ''user_id''"] u1 sc by simp
  finally show ?thesis using sc r1 by simp
qed


subsection \<open>\<open>_combine_data\<close>\<close>

lemma tally_step_totals:
  assumes "tally_step qs item (cs0, tp0, tq0) = Inr (cs, tp, tq)"
  shows "tp = tp0 + points_earned (snd item) \<and> tq = tq0 + worth (snd item)"
  using assms by (auto simp: tally_step_def Let_def split: option.splits)

lemma tally_totals:
  assumes "for_each (tally_step qs) resp (cs0, tp0, tq0) = Inr (cs, tp, tq)"
  shows "tp = tp0 + sum_list (map (\<lambda>item. points_earned (snd item)) resp)
       \<and> tq = tq0 + sum_list (map (\<lambda>item. worth (snd item)) resp)"
  using assms
proof (induction resp arbitrary: cs0 tp0 tq0)
  case Nil
  then show ?case by simp
next
  case (Cons item resp)
  from Cons.prems obtain cs1 tp1 tq1 where
    1: "tally_step qs item (cs0, tp0, tq0) = Inr (cs1, tp1, tq1)"
    and 2: "for_each (tally_step qs) resp (cs1, tp1, tq1) = Inr (cs, tp, tq)"
    by (auto split: sum.splits)
  from tally_step_totals [OF 1] Cons.IH [OF 2] show ?case by simp
qed

lemma tally_never_raises:
  assumes "\<forall>item \<in> set resp. map_of qs (fst item) \<noteq> None"
  shows "for_each (tally_step qs) resp acc \<noteq> Inl e"
  using assms
proof (induction resp arbitrary: acc)
  case Nil
  show ?case by simp
next
  case (Cons item resp)
  obtain cs0 tp0 tq0 where acc: "acc = (cs0, tp0, tq0)" by (metis prod_cases3)
  from Cons.prems obtain q where "map_of qs (fst item) = Some q" by auto
  then obtain acc1 where "tally_step qs item acc = Inr acc1"
    by (simp add: tally_step_def acc Let_def)
  moreover from Cons.IH [of acc1] Cons.prems
  have "for_each (tally_step qs) resp acc1 \<noteq> Inl e" by auto
  ultimately show ?case by simp
qed

lemma combine_user_fields:
  assumes "combine_user qs u = Inr ud"
  shows "responses ud = responses u" and "self_assessment ud = self_assessment u"
    and "ts_points_possible (total_score ud)
           = sum_list (map (\<lambda>item. worth (snd item)) (responses u))"
    and "ts_points_earned (total_score ud)
           = sum_list (map (\<lambda>item. points_earned (snd item)) (responses u))"
proof -
  from assms obtain cs tp tq where
    run: "for_each (tally_step qs) (responses u) ([], 0, 0) = Inr (cs, tp, tq)"
    by (auto simp: combine_user_def split: sum.splits)
  with assms have ud: "responses ud = responses u" "self_assessment ud = self_assessment u"
    "ts_points_possible (total_score ud) = tq" "ts_points_earned (total_score ud) = tp"
    by (auto simp: combine_user_def)
  from tally_totals [OF run] ud
  show "responses ud = responses u" and "self_assessment ud = self_assessment u"
    and "ts_points_possible (total_score ud)
           = sum_list (map (\<lambda>item. worth (snd item)) (responses u))"
    and "ts_points_earned (total_score ud)
           = sum_list (map (\<lambda>item. points_earned (snd item)) (responses u))"
    by simp_all
qed

lemma combine_user_never_raises:
  assumes "\<forall>item \<in> set (responses u). map_of qs (fst item) \<noteq> None"
  shows "combine_user qs u \<noteq> Inl e"
  using tally_never_raises [OF assms, of "([], 0, 0)" e]
  by (auto simp: combine_user_def split: sum.splits)


lemma combine_step_pair:
  "combine_step qs (k, u) acc =
     (case combine_user qs u of Inl e \<Rightarrow> Inl e | Inr ud \<Rightarrow> Inr (acc @ [(k, ud)]))"
  by (simp add: combine_step_def split: sum.splits)

lemma combine_loop_Cons:
  assumes "for_each (combine_step qs) ((k, u) # us) acc = Inr uds"
  shows "\<exists>ud. combine_user qs u = Inr ud
           \<and> for_each (combine_step qs) us (acc @ [(k, ud)]) = Inr uds"
proof (cases "combine_user qs u")
  case (Inl e)
  with assms show ?thesis by (simp add: combine_step_pair)
next
  case (Inr ud)
  with assms show ?thesis by (simp add: combine_step_pair)
qed

lemma combine_loop_origin:
  assumes "for_each (combine_step qs) us acc = Inr uds" and "(uid, ud) \<in> set uds"
  shows "(uid, ud) \<in> set acc \<or> (\<exists>u. (uid, u) \<in> set us \<and> combine_user qs u = Inr ud)"
  using assms
proof (induction us arbitrary: acc)
  case Nil
  then show ?case by simp
next
  case (Cons item us)
  obtain k u where item: "item = (k, u)" by (cases item)
  from combine_loop_Cons [of qs k u us acc uds] Cons.prems(1)
  obtain ud1 where 1: "combine_user qs u = Inr ud1"
    and 2: "for_each (combine_step qs) us (acc @ [(k, ud1)]) = Inr uds"
    by (auto simp: item)
  from Cons.IH [OF 2 Cons.prems(2)] 1 show ?case by (auto simp: item)
qed

lemma combine_loop_keys:
  assumes "for_each (combine_step qs) us acc = Inr uds"
  shows "map fst uds = map fst acc @ map fst us"
  using assms
proof (induction us arbitrary: acc)
  case Nil
  then show ?case by simp
next
  case (Cons item us)
  obtain k u where item: "item = (k, u)" by (cases item)
  from combine_loop_Cons [of qs k u us acc uds] Cons.prems(1)
  obtain ud1 where
    2: "for_each (combine_step qs) us (acc @ [(k, ud1)]) = Inr uds"
    by (auto simp: item)
  from Cons.IH [OF 2] show ?case by (simp add: item)
qed

lemma combine_loop_never_raises:
  assumes "\<forall>(uid, u) \<in> set us. \<forall>item \<in> set (responses u). map_of qs (fst item) \<noteq> None"
  shows "for_each (combine_step qs) us acc \<noteq> Inl e"
  using assms
proof (induction us arbitrary: acc)
  case Nil
  show ?case by simp
next
  case (Cons item us)
  obtain k u where item: "item = (k, u)" by (cases item)
  from Cons.prems have "\<forall>item \<in> set (responses u). map_of qs (fst item) \<noteq> None"
    by (auto simp: item)
  from combine_user_never_raises [OF this] obtain ud where "combine_user qs u = Inr ud"
    by (cases "combine_user qs u") auto
  moreover from Cons.IH [of "acc @ [(k, ud)]"] Cons.prems
  have "for_each (combine_step qs) us (acc @ [(k, ud)]) \<noteq> Inl e" by auto
  ultimately show ?case by (simp add: item combine_step_pair)
qed

lemma combine_data_fields:
  assumes "combine_data qs us = Inr m"
  shows "questions m = qs" and "map fst (users m) = map fst us"
    and "self_assessment_categories (metadata m)
           = collect_self_assessment_categories (map snd us)"
    and "max_score (metadata m) = 10"
    and "(uid, ud) \<in> set (users m)
           \<Longrightarrow> \<exists>u. (uid, u) \<in> set us \<and> combine_user qs u = Inr ud"
proof -
  from assms obtain uds where run: "for_each (combine_step qs) us [] = Inr uds"
    and m: "users m = uds" "questions m = qs" "max_score (metadata m) = 10"
      "self_assessment_categories (metadata m)
         = collect_self_assessment_categories (map snd us)"
    by (auto simp: combine_data_def split: sum.splits)
  show "questions m = qs" by fact
  show "map fst (users m) = map fst us" using combine_loop_keys [OF run] m by simp
  show "self_assessment_categories (metadata m)
           = collect_self_assessment_categories (map snd us)" by fact
  show "max_score (metadata m) = 10" by fact
  show "\<exists>u. (uid, u) \<in> set us \<and> combine_user qs u = Inr ud"
    if "(uid, ud) \<in> set (users m)"
    using combine_loop_origin [OF run] that m by auto
qed

lemma combine_data_never_raises:
  assumes "\<forall>(uid, u) \<in> set us. \<forall>item \<in> set (responses u). map_of qs (fst item) \<noteq> None"
  shows "combine_data qs us \<noteq> Inl e"
  using combine_loop_never_raises [OF assms, of "[]" e]
  by (auto simp: combine_data_def split: sum.splits)

subsection \<open>The loaded model\<close>

lemma load_responses_Some:
  assumes "load_responses qs (Some df) us0 = Inr us"
  shows "us = fold (response_row qs (columns df)) (rows df) us0"
    and "''date_time'' \<in> set (columns df)" and "''user_id'' \<in> set (columns df)"
  using assms by (auto simp: load_responses_def split: if_splits)

lemma load_responses_None: "load_responses qs None us0 = Inl FileNotFoundError"
  by (simp add: load_responses_def)

lemma load_self_assessment_None:
  "load_self_assessment cats None us = Inr (us, [''Warning: self_assessment.csv not found''])"
  by (simp add: load_self_assessment_def)

lemma load_self_assessment_Some:
  assumes "load_self_assessment cats (Some df) us = Inr (us', printed)"
  shows "for_each (assessment_row cats (columns df)) (rows df) us = Inr us'"
    and "printed = []"
  using assms by (auto simp: load_self_assessment_def split: if_splits sum.splits)

lemma load_self_assessment_keeps:
  assumes "load_self_assessment cats f us = Inr (us', printed)"
  shows "map fst us' = map fst us"
    and "map_option responses (map_of us' uid) = map_option responses (map_of us uid)"
proof -
  show "map fst us' = map fst us"
  proof (cases f)
    case None
    with assms show ?thesis by (simp add: load_self_assessment_None)
  next
    case (Some df)
    with assms show ?thesis
      using load_self_assessment_Some(1) assessment_rows_keys by blast
  qed
  show "map_option responses (map_of us' uid) = map_option responses (map_of us uid)"
  proof (cases f)
    case None
    with assms show ?thesis by (simp add: load_self_assessment_None)
  next
    case (Some df)
    with assms show ?thesis
      using load_self_assessment_Some(1) assessment_rows_responses by blast
  qed
qed

lemma users_ok_Nil: "users_ok qs cols []"
  by (simp add: users_ok_def)

lemma users_ok_after_assessment:
  assumes "users_ok qs cols us" and "load_self_assessment cats f us = Inr (us', printed)"
  shows "users_ok qs cols us'"
  unfolding users_ok_def
proof (intro conjI allI impI)
  show "distinct (map fst us')"
    using assms by (simp add: load_self_assessment_keeps(1) users_ok_def)
next
  fix uid u'
  assume "map_of us' uid = Some u'"
  with load_self_assessment_keeps(2) [OF assms(2), of uid]
  obtain u where "map_of us uid = Some u" "responses u = responses u'"
    by (cases "map_of us uid") auto
  with assms(1) show "resp_ok qs cols (responses u')" unfolding users_ok_def by metis
qed

text \<open>What a successful load went through.\<close>

lemma load_all_data_steps:
  assumes "load_all_data d = Inr (m, printed)"
  obtains qs cats rdf us us' where
    "load_questions (questions_csv d) = Inr (qs, cats)"
    "results_csv d = Some rdf"
    "load_responses qs (Some rdf) [] = Inr us"
    "load_self_assessment cats (self_assessment_csv d) us = Inr (us', printed)"
    "combine_data qs us' = Inr m"
proof -
  from assms obtain qs cats where 1: "load_questions (questions_csv d) = Inr (qs, cats)"
    by (cases "load_questions (questions_csv d)") (auto simp: load_all_data_def)
  from assms 1 obtain us where 2: "load_responses qs (results_csv d) [] = Inr us"
    by (cases "load_responses qs (results_csv d) []") (auto simp: load_all_data_def)
  then obtain rdf where 3: "results_csv d = Some rdf"
    by (cases "results_csv d") (auto simp: load_responses_None)
  from assms 1 2 obtain us' pr where
    4: "load_self_assessment cats (self_assessment_csv d) us = Inr (us', pr)"
    by (cases "load_self_assessment cats (self_assessment_csv d) us")
      (auto simp: load_all_data_def)
  from assms 1 2 4 have 5: "combine_data qs us' = Inr m" and "pr = printed"
    by (auto simp: load_all_data_def split: sum.splits)
  with 1 2 3 4 that show thesis by simp
qed

text \<open>Every user of a loaded model holds responses derived from the question bank.\<close>

lemma loaded_users_ok:
  assumes "load_questions qf = Inr (qs, cats)" and "load_responses qs (Some rdf) [] = Inr us"
    and "load_self_assessment cats sf us = Inr (us', printed)"
  shows "users_ok qs (columns rdf) us'"
proof -
  have dq: "distinct (map fst qs)" using assms(1) by (rule load_questions_distinct)
  have "users_ok qs (columns rdf) us"
    unfolding load_responses_Some(1) [OF assms(2)]
    by (rule users_ok_fold [OF dq users_ok_Nil])
  then show ?thesis using assms(3) by (rule users_ok_after_assessment)
qed

lemma resp_ok_member:
  assumes "resp_ok qs cols resp" and "(qid, r) \<in> set resp"
  shows "\<exists>q ts a. map_of qs qid = Some q \<and> r = derive_response ts a q"
proof -
  from assms have "map_of resp qid = Some r" by (simp add: resp_ok_def)
  with assms(1) obtain q row where "map_of qs qid = Some q"
    "row_response cols row q = Some r" unfolding resp_ok_def by blast
  then show ?thesis
    by (auto simp: row_response_def split: cell.splits if_splits)
qed

lemma loaded_response_origin:
  assumes "load_all_data d = Inr (m, printed)" and "(uid, ud) \<in> set (users m)"
    and "(qid, r) \<in> set (responses ud)"
  shows "\<exists>q ts a. map_of (questions m) qid = Some q \<and> r = derive_response ts a q"
proof -
  from assms(1) obtain qs cats rdf us us' where
    1: "load_questions (questions_csv d) = Inr (qs, cats)"
    and 3: "load_responses qs (Some rdf) [] = Inr us"
    and 4: "load_self_assessment cats (self_assessment_csv d) us = Inr (us', printed)"
    and 5: "combine_data qs us' = Inr m"
    by (rule load_all_data_steps)
  have ok: "users_ok qs (columns rdf) us'" using 1 3 4 by (rule loaded_users_ok)
  from combine_data_fields(5) [OF 5 assms(2)] obtain u where
    u: "(uid, u) \<in> set us'" and cu: "combine_user qs u = Inr ud" by blast
  from ok u have "map_of us' uid = Some u" by (simp add: users_ok_def)
  with ok have "resp_ok qs (columns rdf) (responses u)" by (auto simp: users_ok_def)
  moreover have "responses ud = responses u" using cu by (rule combine_user_fields(1))
  ultimately show ?thesis
    using resp_ok_member assms(3) combine_data_fields(1) [OF 5] by metis
qed

lemma py_eq_iff: "py_eq a b \<longleftrightarrow> a = b \<and> a \<noteq> Missing"
  by (cases a; cases b) auto


subsection \<open>Rows of one user\<close>

lemma last_row_responses:
  assumes dq: "distinct (map fst qs)"
    and load: "load_responses qs (Some df) [] = Inr us"
    and split: "rows df = pre @ row # post"
    and post: "\<forall>r \<in> set post. r ''user_id'' \<noteq> row ''user_id''"
  shows "distinct (map fst us)"
    and "\<exists>u. map_of us (row ''user_id'') = Some u
           \<and> (\<forall>qid. map_of (responses u) qid =
                 (case map_of qs qid of
                    None \<Rightarrow> None
                  | Some q \<Rightarrow>
                      (case q_text q of
                         Text name \<Rightarrow>
                           if name \<in> set (columns df)
                           then Some (derive_response (row ''date_time'') (row name) q)
                           else None
                       | _ \<Rightarrow> None)))"
proof -
  have us: "us = fold (response_row qs (columns df)) (pre @ row # post) []"
    using load_responses_Some(1) [OF load] split by simp
  have "users_ok qs (columns df) us"
    unfolding us by (rule users_ok_fold [OF dq users_ok_Nil])
  then show "distinct (map fst us)" by (simp add: users_ok_def)
  from fold_response_row_last [of qs "columns df" "[]" post row pre, OF dq users_ok_Nil post]
  obtain u where u: "map_of us (row ''user_id'') = Some u"
    and r: "map_of (responses u) = map_of (fold (question_step (columns df) row) qs [])"
    unfolding us by blast
  have "map_of (responses u) qid =
      (case map_of qs qid of
         None \<Rightarrow> None
       | Some q \<Rightarrow>
           (case q_text q of
              Text name \<Rightarrow>
                if name \<in> set (columns df)
                then Some (derive_response (row ''date_time'') (row name) q)
                else None
            | _ \<Rightarrow> None))" for qid
    unfolding r fold_question_step_map_of [OF dq]
    by (auto simp: row_response_def split: option.splits cell.splits)
  with u show "\<exists>u. map_of us (row ''user_id'') = Some u
           \<and> (\<forall>qid. map_of (responses u) qid =
                 (case map_of qs qid of
                    None \<Rightarrow> None
                  | Some q \<Rightarrow>
                      (case q_text q of
                         Text name \<Rightarrow>
                           if name \<in> set (columns df)
                           then Some (derive_response (row ''date_time'') (row name) q)
                           else None
                       | _ \<Rightarrow> None)))" by blast
qed

lemma last_row_assessment:
  assumes load: "load_self_assessment cats (Some sdf) us = Inr (us', printed)"
    and split: "rows sdf = pre @ row # post"
    and post: "\<forall>r \<in> set post. r ''user_id'' \<noteq> row ''user_id''"
    and known: "map_of us (row ''user_id'') = Some u0"
  shows "\<exists>u sc. map_of us' (row ''user_id'') = Some u
           \<and> for_each (score_step (columns sdf) row) cats [] = Inr sc
           \<and> self_assessment u = Some \<lparr>sa_timestamp = row ''date_time'', scores = sc\<rparr>
           \<and> responses u = responses u0"
proof -
  have "for_each (assessment_row cats (columns sdf)) (pre @ row # post) us = Inr us'"
    using load_self_assessment_Some(1) [OF load] split by simp
  from assessment_rows_last [OF this post known] show ?thesis by blast
qed

section \<open>Properties of the analyzer\<close>

lemmas analyzer_defs = analyze_user_performance_def analyze_user_def category_step_def
  calculate_proficiency_score_def get_overall_statistics_def user_comparison_stats_def
  user_self_assessment_averages_def all_scores_of_def Let_def

lemmas scenario_defs = scenario_C_model_def scenario_E_model_def first_user_def
  second_user_def the_question_def rated_user_def

subsection \<open>The loop over the categories\<close>

lemma category_step_skip:
  assumes "\<not> compared cats item"
  shows "\<exists>mcs'. category_step cats mx ud item (mcs, ss, cmp) = Inr (mcs', ss, cmp)"
  using assms by (auto simp: category_step_def compared_def Let_def)

lemma category_step_compared:
  assumes "compared cats item"
  shows "category_step cats mx ud item (mcs, ss, cmp) =
     (case self_assessment ud of
        None \<Rightarrow> Inl TypeError
      | Some rec \<Rightarrow>
          (case normalized_self_assessment (snd item) of
             None \<Rightarrow> Inl KeyError
           | Some nsa \<Rightarrow>
               Inr (mcs @ [\<lparr>mc_category = fst item, points = cs_points_earned (snd item),
                            possible = points_possible (snd item),
                            percentage =
                              Fl (py_round (real_of_int (cs_points_earned (snd item))
                                    / real_of_int (points_possible (snd item)) * 100) 1)\<rparr>],
                    ss @ [self_entry mx rec item],
                    cmp @ [comparison_of item nsa])))"
  using assms
  by (auto simp: category_step_def compared_def Let_def self_entry_def comparison_of_def
      split: option.splits)

text \<open>What the loop over the categories returns, when it returns.\<close>

lemma category_loop:
  assumes "for_each (category_step cats mx ud) items (mcs0, ss0, cmp0) = Inr (mcs, ss, cmp)"
  shows "\<forall>item \<in> set items. compared cats item \<longrightarrow>
           self_assessment ud \<noteq> None \<and> normalized_self_assessment (snd item) \<noteq> None"
    and "cmp = cmp0 @ map (\<lambda>item. comparison_of item (the (normalized_self_assessment (snd item))))
                        [item \<leftarrow> items. compared cats item]"
    and "ss = ss0 @ map (self_entry mx (the (self_assessment ud)))
                      [item \<leftarrow> items. compared cats item]"
  using assms
proof (induction items arbitrary: mcs0 ss0 cmp0)
  case Nil
  {
    case 1 then show ?case by simp
  next
    case 2 then show ?case by simp
  next
    case 3 then show ?case by simp
  }
next
  case (Cons item items)
  {
    case 1
    show ?case
    proof (cases "compared cats item")
      case False
      from category_step_skip [OF False, of mx ud mcs0 ss0 cmp0] obtain mcs1 where
        s: "category_step cats mx ud item (mcs0, ss0, cmp0) = Inr (mcs1, ss0, cmp0)" ..
      with 1 have "for_each (category_step cats mx ud) items (mcs1, ss0, cmp0)
          = Inr (mcs, ss, cmp)" by simp
      from Cons.IH(1) [OF this] False show ?thesis by simp
    next
      case True
      from 1 obtain acc1 where s: "category_step cats mx ud item (mcs0, ss0, cmp0) = Inr acc1"
        and rest: "for_each (category_step cats mx ud) items acc1 = Inr (mcs, ss, cmp)"
        by (auto split: sum.splits)
      obtain mcs1 ss1 cmp1 where acc1: "acc1 = (mcs1, ss1, cmp1)" by (metis prod_cases3)
      from s have "self_assessment ud \<noteq> None \<and> normalized_self_assessment (snd item) \<noteq> None"
        unfolding category_step_compared [OF True] by (auto split: option.splits)
      with Cons.IH(1) [OF rest [unfolded acc1]] show ?thesis by simp
    qed
  next
    case 2
    show ?case
    proof (cases "compared cats item")
      case False
      from category_step_skip [OF False, of mx ud mcs0 ss0 cmp0] obtain mcs1 where
        s: "category_step cats mx ud item (mcs0, ss0, cmp0) = Inr (mcs1, ss0, cmp0)" ..
      with 2 have "for_each (category_step cats mx ud) items (mcs1, ss0, cmp0)
          = Inr (mcs, ss, cmp)" by simp
      from Cons.IH(2) [OF this] False show ?thesis by simp
    next
      case True
      from 2 obtain acc1 where s: "category_step cats mx ud item (mcs0, ss0, cmp0) = Inr acc1"
        and rest: "for_each (category_step cats mx ud) items acc1 = Inr (mcs, ss, cmp)"
        by (auto split: sum.splits)
      obtain mcs1 ss1 cmp1 where acc1: "acc1 = (mcs1, ss1, cmp1)" by (metis prod_cases3)
      from s acc1 have "cmp1 = cmp0
          @ [comparison_of item (the (normalized_self_assessment (snd item)))]"
        unfolding category_step_compared [OF True] by (auto split: option.splits)
      with Cons.IH(2) [OF rest [unfolded acc1]] True show ?thesis by simp
    qed
  next
    case 3
    show ?case
    proof (cases "compared cats item")
      case False
      from category_step_skip [OF False, of mx ud mcs0 ss0 cmp0] obtain mcs1 where
        s: "category_step cats mx ud item (mcs0, ss0, cmp0) = Inr (mcs1, ss0, cmp0)" ..
      with 3 have "for_each (category_step cats mx ud) items (mcs1, ss0, cmp0)
          = Inr (mcs, ss, cmp)" by simp
      from Cons.IH(3) [OF this] False show ?thesis by simp
    next
      case True
      from 3 obtain acc1 where s: "category_step cats mx ud item (mcs0, ss0, cmp0) = Inr acc1"
        and rest: "for_each (category_step cats mx ud) items acc1 = Inr (mcs, ss, cmp)"
        by (auto split: sum.splits)
      obtain mcs1 ss1 cmp1 where acc1: "acc1 = (mcs1, ss1, cmp1)" by (metis prod_cases3)
      from s acc1 have "ss1 = ss0 @ [self_entry mx (the (self_assessment ud)) item]"
        unfolding category_step_compared [OF True] by (auto split: option.splits)
      with Cons.IH(3) [OF rest [unfolded acc1]] True show ?thesis by simp
    qed
  }
qed

subsection \<open>A returned analysis, a raised exception\<close>

lemma calculate_proficiency_score_reads:
  "calculate_proficiency_score (ua\<lparr>proficiency := p\<rparr>) = calculate_proficiency_score ua"
  by (simp add: calculate_proficiency_score_def Let_def)

text \<open>The fields of a returned analysis.\<close>

lemma analyze_user_Inr:
  assumes "analyze_user cats mx ud = Inr ua"
  obtains mcs ss cmp where
    "for_each (category_step cats mx ud) (score_by_category ud) ([], [], []) = Inr (mcs, ss, cmp)"
    "by_category ua = cmp" "sa_scores ua = ss"
    "accurate_count ua = length [c \<leftarrow> cmp. flt (fabs (difference c)) (Fl (1 / 10))]"
    "overestimate_count ua = length [c \<leftarrow> cmp. flt (difference c) (Fl (- (1 / 10)))]"
    "underestimate_count ua = length [c \<leftarrow> cmp. flt (Fl (1 / 10)) (difference c)]"
    "proficiency ua = calculate_proficiency_score ua"
    "\<exists>q. ts_percentage ua = Fl q"
proof -
  obtain mcs ss cmp where run:
    "for_each (category_step cats mx ud) (score_by_category ud) ([], [], []) = Inr (mcs, ss, cmp)"
    using assms
    by (cases "for_each (category_step cats mx ud) (score_by_category ud) ([], [], [])")
      (auto simp: analyze_user_def)
  from assms run have
    "by_category ua = cmp" "sa_scores ua = ss"
    "accurate_count ua = length [c \<leftarrow> cmp. flt (fabs (difference c)) (Fl (1 / 10))]"
    "overestimate_count ua = length [c \<leftarrow> cmp. flt (difference c) (Fl (- (1 / 10)))]"
    "underestimate_count ua = length [c \<leftarrow> cmp. flt (Fl (1 / 10)) (difference c)]"
    "proficiency ua = calculate_proficiency_score ua"
    "\<exists>q. ts_percentage ua = Fl q"
    by (auto simp: analyze_user_def Let_def calculate_proficiency_score_def)
  with run that show thesis by blast
qed

text \<open>The comparison entries of a returned analysis: one for each category of the user
  that is self-assessed and has points possible, in the order of the user's categories,
  each the quiz score minus the stored normalized self-assessment.\<close>

lemma analyze_user_comparisons:
  assumes "analyze_user cats mx ud = Inr ua"
  shows "by_category ua =
           map (\<lambda>item. comparison_of item (the (normalized_self_assessment (snd item))))
             [item \<leftarrow> score_by_category ud. compared cats item]"
    and "\<forall>item \<in> set (score_by_category ud). compared cats item \<longrightarrow>
           self_assessment ud \<noteq> None \<and> normalized_self_assessment (snd item) \<noteq> None"
    and "sa_scores ua = map (self_entry mx (the (self_assessment ud)))
                          [item \<leftarrow> score_by_category ud. compared cats item]"
proof -
  from assms obtain mcs ss cmp where
    run: "for_each (category_step cats mx ud) (score_by_category ud) ([], [], [])
            = Inr (mcs, ss, cmp)"
    and f: "by_category ua = cmp" "sa_scores ua = ss"
    by (rule analyze_user_Inr)
  from category_loop [OF run] f
  show "by_category ua =
           map (\<lambda>item. comparison_of item (the (normalized_self_assessment (snd item))))
             [item \<leftarrow> score_by_category ud. compared cats item]"
    and "\<forall>item \<in> set (score_by_category ud). compared cats item \<longrightarrow>
           self_assessment ud \<noteq> None \<and> normalized_self_assessment (snd item) \<noteq> None"
    and "sa_scores ua = map (self_entry mx (the (self_assessment ud)))
                          [item \<leftarrow> score_by_category ud. compared cats item]"
    by simp_all
qed

text \<open>A user without a self-assessment record and with a compared category: the loop
  raises TypeError at the first such category.\<close>

lemma category_loop_no_record:
  assumes "self_assessment ud = None" and "\<exists>item \<in> set items. compared cats item"
  shows "for_each (category_step cats mx ud) items acc = Inl TypeError"
  using assms(2)
proof (induction items arbitrary: acc)
  case Nil
  then show ?case by simp
next
  case (Cons item items)
  obtain mcs ss cmp where acc: "acc = (mcs, ss, cmp)" by (metis prod_cases3)
  show ?case
  proof (cases "compared cats item")
    case True
    then show ?thesis by (simp add: acc category_step_compared assms(1))
  next
    case False
    from category_step_skip [OF False, of mx ud mcs ss cmp] obtain mcs1 where
      "category_step cats mx ud item (mcs, ss, cmp) = Inr (mcs1, ss, cmp)" ..
    moreover from Cons.prems False have "\<exists>item \<in> set items. compared cats item" by auto
    ultimately show ?thesis using Cons.IH by (simp add: acc)
  qed
qed

lemma analyze_user_no_record:
  assumes "self_assessment ud = None"
    and "\<exists>item \<in> set (score_by_category ud). compared cats item"
  shows "analyze_user cats mx ud = Inl TypeError"
  by (simp add: analyze_user_def category_loop_no_record [OF assms])

text \<open>Without a user holding comparison data the statistics raise; with one they return.\<close>

lemma get_overall_statistics_raises:
  "get_overall_statistics analysis = Inl ZeroDivisionError
     \<longleftrightarrow> (\<forall>item \<in> set analysis. by_category (snd item) = [])"
  by (auto simp: get_overall_statistics_def user_comparison_stats_def Let_def
      filter_empty_conv)

text \<open>In a returned analysis a category has a comparison entry exactly when it is a
  category of the user that is in the self-assessed list and has points possible, and
  the entry's difference is the quiz score minus the stored normalized self-assessment.\<close>

lemma returned_comparison_entries:
  assumes "analyze_user cats mx ud = Inr ua"
  shows "c \<in> set (map category (by_category ua))
           \<longleftrightarrow> (\<exists>sc. (c, sc) \<in> set (score_by_category ud) \<and> c \<in> set cats
                     \<and> 0 < points_possible sc)"
    and "e \<in> set (by_category ua)
           \<Longrightarrow> \<exists>sc nsa. (category e, sc) \<in> set (score_by_category ud)
                  \<and> normalized_self_assessment sc = Some nsa
                  \<and> quiz_normalized e = normalized_score sc \<and> self_normalized e = nsa
                  \<and> difference e = fsub (normalized_score sc) nsa"
proof -
  note by_cat = analyze_user_comparisons(1) [OF assms]
  note ok = analyze_user_comparisons(2) [OF assms]
  show "c \<in> set (map category (by_category ua))
           \<longleftrightarrow> (\<exists>sc. (c, sc) \<in> set (score_by_category ud) \<and> c \<in> set cats
                     \<and> 0 < points_possible sc)"
    unfolding by_cat by (force simp: comparison_of_def compared_def)
  show "\<exists>sc nsa. (category e, sc) \<in> set (score_by_category ud)
                  \<and> normalized_self_assessment sc = Some nsa
                  \<and> quiz_normalized e = normalized_score sc \<and> self_normalized e = nsa
                  \<and> difference e = fsub (normalized_score sc) nsa"
    if "e \<in> set (by_category ua)"
  proof -
    from that obtain item where item: "item \<in> set (score_by_category ud)"
      "compared cats item"
      and e: "e = comparison_of item (the (normalized_self_assessment (snd item)))"
      unfolding by_cat by auto
    from ok item obtain nsa where "normalized_self_assessment (snd item) = Some nsa"
      by auto
    moreover from item(1) have "(fst item, snd item) \<in> set (score_by_category ud)" by simp
    ultimately show ?thesis
      unfolding e by (intro exI [of _ "snd item"] exI [of _ nsa]) (simp add: comparison_of_def)
  qed
qed

subsection \<open>Float sums and the standard deviation\<close>










subsection \<open>Where a self-assessment score comes from\<close>






section \<open>The specification's scenarios, run\<close>

lemma load_scenario_C:
  "load_all_data scenario_C
     = Inr (scenario_C_model, [''Warning: self_assessment.csv not found''])"
  by code_simp

lemma load_scenario_E: "load_all_data scenario_E = Inr (scenario_E_model, [])"
  by code_simp

lemma analyze_scenario_C:
  "map_sum id (map (\<lambda>(uid, ua). (uid, by_category ua, proficiency ua)))
     (analyze_quiz scenario_C)
   = Inr [(Text ''u1'', [], None), (Text ''u2'', [], None)]"
  by (simp add: analyze_quiz_def load_scenario_C scenario_defs analyzer_defs)

text \<open>
  C1 (the code departs from the claim). With no self-assessment file (scenario C) the
  analysis of every user returns with no comparison entry and no proficiency, and
  \<open>get_overall_statistics\<close> then raises ZeroDivisionError instead of returning a
  zero comparison section.
\<close>

theorem scenario_C_statistics_raise:
  "load_all_data scenario_C
     = Inr (scenario_C_model, [''Warning: self_assessment.csv not found''])
   \<and> map_sum id comparison_lists (analyze_quiz scenario_C)
     = Inr [(Text ''u1'', []), (Text ''u2'', [])]
   \<and> main_statistics scenario_C = Inl ZeroDivisionError"
  by (simp add: main_statistics_def analyze_quiz_def load_scenario_C scenario_defs
        analyzer_defs comparison_lists_def)

text \<open>
  C2 (the code departs from the claim). In scenario E the first user has a score in the
  one compared category and the second has no self-assessment record; the per-user
  analysis raises TypeError at the second user, so no overall statistics are computed.
\<close>

theorem scenario_E_analysis_raises:
  "load_all_data scenario_E = Inr (scenario_E_model, [])
   \<and> analyze_user_performance scenario_E_model = Inl TypeError
   \<and> main_statistics scenario_E = Inl TypeError"
  by (simp add: main_statistics_def analyze_quiz_def load_scenario_E scenario_defs
        analyzer_defs)

text \<open>
  C8. Every response of a loaded model belongs to a question of the bank; its
  correctness flag is Python's \<open>==\<close> of the raw answer and the question's correct
  answer, which is plain equality of the two cells (no case folding, no normalization)
  unless the cell is the missing value, which equals nothing; the points earned are the
  question's full worth when the flag is set and 0 otherwise; the worth is the
  question's.
\<close>

theorem loaded_response_graded:
  assumes "load_all_data d = Inr (m, printed)" and "(uid, ud) \<in> set (users m)"
    and "(qid, r) \<in> set (responses ud)"
  shows "\<exists>q. map_of (questions m) qid = Some q
           \<and> (is_correct r \<longleftrightarrow> py_eq (answer r) (correct_answer q))
           \<and> (is_correct r \<longleftrightarrow> answer r = correct_answer q \<and> answer r \<noteq> Missing)
           \<and> (correct_answer q \<noteq> Missing
                \<longrightarrow> (is_correct r \<longleftrightarrow> answer r = correct_answer q))
           \<and> points_earned r = (if is_correct r then q_worth q else 0)
           \<and> worth r = q_worth q"
proof -
  from loaded_response_origin [OF assms] obtain q ts a where
    "map_of (questions m) qid = Some q" "r = derive_response ts a q" by blast
  then show ?thesis by (auto simp: derive_response_def Let_def py_eq_iff)
qed

text \<open>Scenario D of the specification: the right answer in another case is incorrect.\<close>

theorem loaded_response_graded_witness:
  "load_all_data scenario_E = Inr (scenario_E_model, [])
   \<and> (Text ''u2'', second_user) \<in> set (users scenario_E_model)
   \<and> (1, \<lparr>r_timestamp = Text ''t2'', answer = Text ''paris'', is_correct = False,
           points_earned = 0, worth = 1\<rparr>) \<in> set (responses second_user)
   \<and> (\<exists>q. map_of (questions scenario_E_model) 1 = Some q
           \<and> correct_answer q = Text ''Paris''
           \<and> \<not> py_eq (Text ''paris'') (correct_answer q)
           \<and> Text ''paris'' \<noteq> correct_answer q
           \<and> (0::int) = (if False then q_worth q else 0)
           \<and> (1::int) = q_worth q)"
proof -
  let ?r = "\<lparr>r_timestamp = Text ''t2'', answer = Text ''paris'', is_correct = False,
           points_earned = 0, worth = 1\<rparr>"
  have a: "load_all_data scenario_E = Inr (scenario_E_model, [])" by (rule load_scenario_E)
  have b: "(Text ''u2'', second_user) \<in> set (users scenario_E_model)"
    by (simp add: scenario_E_model_def)
  have c: "(1, ?r) \<in> set (responses second_user)" by (simp add: second_user_def)
  from loaded_response_graded [OF a b c] a b c show ?thesis
    by (auto simp: scenario_E_model_def the_question_def)
qed



text \<open>
  C9. When the self-assessment file is absent and the other two files load, the whole
  load returns a model: the warning is the one line printed, the users are those of the
  results file with their responses, and none of them has a self-assessment record.
\<close>

theorem missing_self_assessment_tolerated:
  assumes "self_assessment_csv d = None"
    and "load_questions (questions_csv d) = Inr (qs, cats)"
    and "load_responses qs (results_csv d) [] = Inr us"
  shows "\<exists>m. load_all_data d = Inr (m, [''Warning: self_assessment.csv not found''])
           \<and> questions m = qs
           \<and> map fst (users m) = map fst us
           \<and> (\<forall>item \<in> set (users m).
                 self_assessment (snd item) = None
                 \<and> (\<exists>u. (fst item, u) \<in> set us \<and> responses (snd item) = responses u))"
proof -
  from assms(3) obtain rdf where rdf: "results_csv d = Some rdf"
    by (cases "results_csv d") (auto simp: load_responses_None)
  have sa: "load_self_assessment cats (self_assessment_csv d) us
      = Inr (us, [''Warning: self_assessment.csv not found''])"
    using assms(1) by (simp add: load_self_assessment_None)
  have ok: "users_ok qs (columns rdf) us"
    using assms(2) assms(3) [unfolded rdf] sa by (rule loaded_users_ok)
  have none: "self_assessment u = None" if "(uid, u) \<in> set us" for uid u
  proof -
    have "\<forall>uid u. map_of (fold (response_row qs cols) rws us0) uid = Some u
        \<longrightarrow> self_assessment u = None"
      if "\<forall>uid u. map_of us0 uid = Some u \<longrightarrow> self_assessment u = None" for cols rws us0
      using that
    proof (induction rws arbitrary: us0)
      case Nil
      then show ?case by simp
    next
      case (Cons row rws)
      have "\<forall>uid u. map_of (response_row qs cols row us0) uid = Some u
          \<longrightarrow> self_assessment u = None"
        using Cons.prems
        by (auto simp: response_row_map_of Let_def split: option.splits if_splits)
      from Cons.IH [OF this] show ?case by simp
    qed
    from this [of "[]" "columns rdf" "rows rdf"]
    have "\<forall>uid u. map_of us uid = Some u \<longrightarrow> self_assessment u = None"
      using load_responses_Some(1) [OF assms(3) [unfolded rdf]] by simp
    moreover have "map_of us uid = Some u" using ok that by (simp add: users_ok_def)
    ultimately show ?thesis by blast
  qed
  have key: "map_of qs (fst item) \<noteq> None"
    if u: "(uid, u) \<in> set us" and i: "item \<in> set (responses u)" for uid u item
  proof -
    obtain qid r where item: "item = (qid, r)" by (cases item)
    from ok u have "resp_ok qs (columns rdf) (responses u)"
      unfolding users_ok_def by (metis map_of_is_SomeI)
    from resp_ok_member [OF this i [unfolded item]] show ?thesis by (auto simp: item)
  qed
  then have keys:
    "\<forall>(uid, u) \<in> set us. \<forall>item \<in> set (responses u). map_of qs (fst item) \<noteq> None"
    by blast
  obtain m where m: "combine_data qs us = Inr m"
    using combine_data_never_raises [OF keys] by (cases "combine_data qs us") auto
  have load: "load_all_data d = Inr (m, [''Warning: self_assessment.csv not found''])"
    using assms(2,3) sa m by (simp add: load_all_data_def)
  have each: "self_assessment ud = None \<and> (\<exists>u. (uid, u) \<in> set us \<and> responses ud = responses u)"
    if "(uid, ud) \<in> set (users m)" for uid ud
  proof -
    from combine_data_fields(5) [OF m that] obtain u where
      u: "(uid, u) \<in> set us" and cu: "combine_user qs u = Inr ud" by blast
    from combine_user_fields(1,2) [OF cu] none [OF u] u show ?thesis by auto
  qed
  show ?thesis
    using load combine_data_fields(1,2) [OF m] each by (intro exI [of _ m]) auto
qed

theorem missing_self_assessment_tolerated_witness:
  "self_assessment_csv scenario_C = None
   \<and> load_questions (questions_csv scenario_C) = Inr (the_question, [Text ''X''])
   \<and> isl (load_responses the_question (results_csv scenario_C) []) = False
   \<and> (\<exists>m. load_all_data scenario_C = Inr (m, [''Warning: self_assessment.csv not found''])
          \<and> questions m = the_question
          \<and> map fst (users m) = [Text ''u1'', Text ''u2''])"
proof -
  have a: "self_assessment_csv scenario_C = None" by (simp add: scenario_C_def)
  have b: "load_questions (questions_csv scenario_C) = Inr (the_question, [Text ''X''])"
    by code_simp
  obtain us where c: "load_responses the_question (results_csv scenario_C) [] = Inr us"
    and k: "map fst us = [Text ''u1'', Text ''u2'']"
    by (cases "load_responses the_question (results_csv scenario_C) []")
      (simp_all add: load_responses_def scenario_C_def two_users_def response_row_def
        Let_def cells_def)
  from missing_self_assessment_tolerated [OF a b c] a b c k show ?thesis by auto
qed

text \<open>
  C10. A user identifier on several rows of the results file gives one user, and for
  every question that user's stored response is the one derived from the last of those
  rows (none, where the question has no column). On several rows of the self-assessment
  file, a known user's record is the one built from the last of those rows; the
  responses stay as loaded.
\<close>

theorem last_row_wins:
  assumes "load_questions qf = Inr (qs, cats)"
    and "load_responses qs (Some df) [] = Inr us"
  shows "(\<forall>pre row post.
            rows df = pre @ row # post \<and> (\<forall>r \<in> set post. r ''user_id'' \<noteq> row ''user_id'')
            \<longrightarrow> distinct (map fst us)
              \<and> (\<exists>u. map_of us (row ''user_id'') = Some u
                   \<and> (\<forall>qid. map_of (responses u) qid =
                         (case map_of qs qid of
                            None \<Rightarrow> None
                          | Some q \<Rightarrow>
                              (case q_text q of
                                 Text name \<Rightarrow>
                                   if name \<in> set (columns df)
                                   then Some (derive_response (row ''date_time'')
                                                (row name) q)
                                   else None
                               | _ \<Rightarrow> None)))))
       \<and> (\<forall>sdf us' printed pre row post u0.
            load_self_assessment cats (Some sdf) us = Inr (us', printed)
            \<and> rows sdf = pre @ row # post
            \<and> (\<forall>r \<in> set post. r ''user_id'' \<noteq> row ''user_id'')
            \<and> map_of us (row ''user_id'') = Some u0
            \<longrightarrow> (\<exists>u sc. map_of us' (row ''user_id'') = Some u
                   \<and> for_each (score_step (columns sdf) row) cats [] = Inr sc
                   \<and> self_assessment u
                       = Some \<lparr>sa_timestamp = row ''date_time'', scores = sc\<rparr>
                   \<and> responses u = responses u0))"
proof (intro conjI allI impI)
  have dq: "distinct (map fst qs)" using assms(1) by (rule load_questions_distinct)
  fix pre row post
  assume a: "rows df = pre @ row # post
      \<and> (\<forall>r \<in> set post. r ''user_id'' \<noteq> row ''user_id'')"
  then have s: "rows df = pre @ row # post"
    and p: "\<forall>r \<in> set post. r ''user_id'' \<noteq> row ''user_id''" by simp_all
  show "distinct (map fst us)"
    using dq assms(2) s p by (rule last_row_responses(1))
  show "\<exists>u. map_of us (row ''user_id'') = Some u
           \<and> (\<forall>qid. map_of (responses u) qid =
                 (case map_of qs qid of
                    None \<Rightarrow> None
                  | Some q \<Rightarrow>
                      (case q_text q of
                         Text name \<Rightarrow>
                           if name \<in> set (columns df)
                           then Some (derive_response (row ''date_time'') (row name) q)
                           else None
                       | _ \<Rightarrow> None)))"
    using dq assms(2) s p by (rule last_row_responses(2))
next
  fix sdf us' printed pre row post u0
  assume "load_self_assessment cats (Some sdf) us = Inr (us', printed)
            \<and> rows sdf = pre @ row # post
            \<and> (\<forall>r \<in> set post. r ''user_id'' \<noteq> row ''user_id'')
            \<and> map_of us (row ''user_id'') = Some u0"
  then show "\<exists>u sc. map_of us' (row ''user_id'') = Some u
                   \<and> for_each (score_step (columns sdf) row) cats [] = Inr sc
                   \<and> self_assessment u
                       = Some \<lparr>sa_timestamp = row ''date_time'', scores = sc\<rparr>
                   \<and> responses u = responses u0"
    using last_row_assessment by blast
qed

theorem last_row_wins_witness:
  "load_questions (Some one_question) = Inr (the_question, [Text ''X''])
   \<and> load_responses the_question (Some two_attempts) [] = Inr retake_users
   \<and> rows two_attempts = [attempt ''t1'' ''Paris''] @ attempt ''t2'' ''Rome'' # []
   \<and> distinct (map fst retake_users)
   \<and> (\<exists>u. map_of retake_users (Text ''u1'') = Some u
          \<and> map_of (responses u) 1 = Some second_attempt)
   \<and> load_self_assessment [Text ''X''] (Some two_ratings) retake_users
       = Inr (rated_users, [])
   \<and> rows two_ratings = [rating ''t1'' 3] @ rating ''t2'' 8 # []
   \<and> (\<exists>u. map_of rated_users (Text ''u1'') = Some u
          \<and> self_assessment u
              = Some \<lparr>sa_timestamp = Text ''t2'', scores = [(Text ''X'', Fl 8)]\<rparr>
          \<and> responses u = [(1, second_attempt)])"
proof -
  have a: "load_questions (Some one_question) = Inr (the_question, [Text ''X''])"
    by code_simp
  have b: "load_responses the_question (Some two_attempts) [] = Inr retake_users"
    by code_simp
  have c: "rows two_attempts = [attempt ''t1'' ''Paris''] @ attempt ''t2'' ''Rome'' # []"
    by (simp add: two_attempts_def)
  have d: "load_self_assessment [Text ''X''] (Some two_ratings) retake_users
      = Inr (rated_users, [])"
    by code_simp
  have e: "rows two_ratings = [rating ''t1'' 3] @ rating ''t2'' 8 # []"
    by (simp add: two_ratings_def)
  have f: "map_of retake_users (rating ''t2'' 8 ''user_id'')
      = Some \<lparr>responses = [(1, second_attempt)], self_assessment = None\<rparr>"
    by (simp add: retake_users_def rating_def cells_def)
  note w = last_row_wins [OF a b]
  from w [THEN conjunct1, rule_format, of "[attempt ''t1'' ''Paris'']"
      "attempt ''t2'' ''Rome''" "[]"] c
  have 1: "distinct (map fst retake_users)
      \<and> (\<exists>u. map_of retake_users (Text ''u1'') = Some u
             \<and> map_of (responses u) 1 = Some second_attempt)"
    by (auto simp: attempt_def cells_def the_question_def two_attempts_def
          derive_response_def second_attempt_def Let_def)
  from w [THEN conjunct2, rule_format, of two_ratings rated_users "[]"
      "[rating ''t1'' 3]" "rating ''t2'' 8" "[]"] d e f
  have 2: "\<exists>u. map_of rated_users (Text ''u1'') = Some u
          \<and> self_assessment u
              = Some \<lparr>sa_timestamp = Text ''t2'', scores = [(Text ''X'', Fl 8)]\<rparr>
          \<and> responses u = [(1, second_attempt)]"
    by (auto simp: rating_def cells_def two_ratings_def score_step_def)
  from a b c d e 1 2 show ?thesis by blast
qed

text \<open>
  C3 (the code departs from the claim). In the model of scenario E the second user's
  category X is in the global self-assessed set and has 1 point possible, yet the
  analysis of that user produces no comparison entry: it raises TypeError. (Where the
  analysis returns, lemma \<open>returned_comparison_entries\<close> gives an entry for each such
  category and no other, with the difference the claim states.)
\<close>

theorem scenario_E_second_user_no_entry:
  "load_all_data scenario_E = Inr (scenario_E_model, [])
   \<and> map_of (users scenario_E_model) (Text ''u2'') = Some second_user
   \<and> self_assessment_categories (metadata scenario_E_model) = [Text ''X'']
   \<and> score_by_category second_user
       = [(Text ''X'', \<lparr>cs_points_earned = 0, points_possible = 1, normalized_score = Fl 0,
                        normalized_self_assessment = None\<rparr>)]
   \<and> analyze_user (self_assessment_categories (metadata scenario_E_model))
         (max_score (metadata scenario_E_model)) second_user = Inl TypeError"
  by (simp add: load_scenario_E scenario_defs analyzer_defs)










end
